theory Spec2Isabelle
  imports Complex_Main "HOL-Library.AList"
begin

section \<open>The number type of the source\<close>

text \<open>
  Amounts and balances have the TypeScript type \<open>number\<close>, the 64-bit binary floating-point
  numbers of IEEE 754. A value is a finite number, given by the real number it denotes, or
  one of the three special values (the sign of zero, which no operation of the source can
  observe, is not kept). The source computes with \<open>+=\<close> and \<open>-=\<close>: the exact sum or
  difference, rounded to the nearest representable number, to the one with an even
  significand in a tie, and to an infinity when the rounded value is out of range. The
  special values follow the rules of the language: \<open>NaN\<close> is absorbing for \<open>+\<close> and \<open>-\<close>,
  every comparison with \<open>NaN\<close> is false, and \<open>Infinity - Infinity\<close> is \<open>NaN\<close>.
\<close>

datatype number = Fin real | PosInf | NegInf | NaN

text \<open>\<open>ilog2 n\<close> is the integer part of the binary logarithm of \<open>n\<close>, for \<open>n\<close> from 1.\<close>

function ilog2 :: "int \<Rightarrow> int" where
  "ilog2 n = (if n \<le> 1 then 0 else 1 + ilog2 (n div 2))"
  by pat_completeness auto
termination
  by (relation "measure nat") auto

declare ilog2.simps [simp del]

text \<open>
  The binary exponent of a real number \<open>q\<close>, the \<open>e\<close> with \<open>2^e <= |q| < 2^(e+1)\<close>, but not
  below \<open>-1022\<close>, the exponent of the smallest normal numbers (below it the numbers are
  subnormal and share the spacing of that exponent). For \<open>|q| < 1\<close> it is computed from the
  reciprocal: \<open>-e\<close> is the least \<open>k\<close> with \<open>1/|q| <= 2^k\<close>.
\<close>

definition binade :: "real \<Rightarrow> int" where
  "binade q =
     max (- 1022)
       (if 1 \<le> \<bar>q\<bar> then ilog2 \<lfloor>\<bar>q\<bar>\<rfloor> else - (1 + ilog2 (\<lceil>1 / \<bar>q\<bar>\<rceil> - 1)))"

text \<open>
  The spacing of the representable numbers around \<open>q\<close>: a significand has 53 bits, so
  the numbers with exponent \<open>e\<close> are the multiples of \<open>2^(e-52)\<close>.
\<close>

definition ulp :: "real \<Rightarrow> real" where
  "ulp q = 2 powi (binade q - 52)"

text \<open>Rounding to the nearest integer, to the even one in a tie.\<close>

definition round_half_even :: "real \<Rightarrow> int" where
  "round_half_even x =
     (let f = \<lfloor>x\<rfloor>; d = x - of_int f
      in if d < 1 / 2 then f else if 1 / 2 < d then f + 1 else if even f then f else f + 1)"

text \<open>
  \<open>round64 q\<close> is the \<open>number\<close> that an arithmetic operation with the exact result \<open>q\<close>
  returns: the nearest multiple of the spacing, or an infinity when that multiple has
  left the range of the finite numbers, which are below \<open>2^1024\<close> in absolute value.
\<close>

definition round64 :: "real \<Rightarrow> number" where
  "round64 q =
     (let r = of_int (round_half_even (q / ulp q)) * ulp q
      in if 2 ^ 1024 \<le> r then PosInf else if r \<le> - (2 ^ 1024) then NegInf else Fin r)"

fun num_add :: "number \<Rightarrow> number \<Rightarrow> number" where
  "num_add (Fin x) (Fin y) = round64 (x + y)"
| "num_add (Fin x) PosInf = PosInf"
| "num_add (Fin x) NegInf = NegInf"
| "num_add PosInf (Fin y) = PosInf"
| "num_add PosInf PosInf = PosInf"
| "num_add PosInf NegInf = NaN"
| "num_add NegInf (Fin y) = NegInf"
| "num_add NegInf NegInf = NegInf"
| "num_add NegInf PosInf = NaN"
| "num_add NaN b = NaN"
| "num_add a NaN = NaN"

text \<open>
  Negation is exact, and \<open>a - b\<close> is \<open>a + (-b)\<close>, the rounded exact difference.
\<close>

fun num_neg :: "number \<Rightarrow> number" where
  "num_neg (Fin x) = Fin (- x)"
| "num_neg PosInf = NegInf"
| "num_neg NegInf = PosInf"
| "num_neg NaN = NaN"

definition num_sub :: "number \<Rightarrow> number \<Rightarrow> number" where
  "num_sub a b = num_add a (num_neg b)"

text \<open>The comparisons \<open>a < b\<close> and \<open>a <= b\<close> of the language.\<close>

fun num_lt :: "number \<Rightarrow> number \<Rightarrow> bool" where
  "num_lt (Fin x) (Fin y) = (x < y)"
| "num_lt (Fin x) PosInf = True"
| "num_lt (Fin x) NegInf = False"
| "num_lt PosInf b = False"
| "num_lt NegInf (Fin y) = True"
| "num_lt NegInf PosInf = True"
| "num_lt NegInf NegInf = False"
| "num_lt a NaN = False"
| "num_lt NaN b = False"

fun num_le :: "number \<Rightarrow> number \<Rightarrow> bool" where
  "num_le (Fin x) (Fin y) = (x \<le> y)"
| "num_le (Fin x) PosInf = True"
| "num_le (Fin x) NegInf = False"
| "num_le PosInf (Fin y) = False"
| "num_le PosInf PosInf = True"
| "num_le PosInf NegInf = False"
| "num_le NegInf (Fin y) = True"
| "num_le NegInf PosInf = True"
| "num_le NegInf NegInf = True"
| "num_le a NaN = False"
| "num_le NaN b = False"

section \<open>Errors and amount validation\<close>

text \<open>The five exception classes of \<open>errors.ts\<close>.\<close>

datatype error =
    InvalidAmountError
  | InsufficientBalanceError
  | MissingAccountError
  | InvalidNameError
  | NameAlreadyExistsError

text \<open>\<open>validateAmount\<close> throws when \<open>amount <= 0\<close> and returns nothing otherwise.\<close>

definition validateAmount :: "number \<Rightarrow> error + unit" where
  "validateAmount amount = (if num_le amount (Fin 0) then Inl InvalidAmountError else Inr ())"

section \<open>Strings\<close>

text \<open>
  A name is a \<open>string\<close>, a list of characters with codes 0 to 255. \<open>trim\<close> is
  \<open>String.prototype.trim\<close>: it removes white space and line terminators from both ends.
  Among the characters with codes below 256 these are the tab, line feed, vertical tab,
  form feed, carriage return, space and no-break space.
\<close>

definition is_ws :: "char \<Rightarrow> bool" where
  "is_ws c = (c \<in> set [CHR 0x09, CHR 0x0A, CHR 0x0B, CHR 0x0C, CHR 0x0D, CHR 0x20, CHR 0xA0])"

definition trim :: "string \<Rightarrow> string" where
  "trim s = rev (dropWhile is_ws (rev (dropWhile is_ws s)))"

section \<open>The bank and its accounts\<close>

text \<open>
  An \<open>AccountImpl\<close> object has the fields \<open>name\<close> and \<open>balance\<close>; its field
  \<open>bank\<close> always refers to the one bank that created it and is left implicit.

  A \<open>BankImpl\<close> has the fields \<open>accounts\<close>, a \<open>Map\<close> from strings to account objects,
  and \<open>totalBalance\<close>. The \<open>Map\<close> is an association list in insertion order. An entry is
  only ever added under a key that is not present yet, with a fresh object as its value,
  and no entry is removed: every account object lives under exactly one key, so the
  entry also is the object's storage and the key serves as the reference to the object
  (the handle that \<open>createAccount\<close> returns to its caller).
\<close>

record account =
  name :: string
  balance :: number

record bank =
  accounts :: "(string \<times> account) list"
  totalBalance :: number

text \<open>A new \<open>BankImpl\<close>: no accounts, total balance \<open>0\<close>.\<close>

definition createBank :: bank where
  "createBank = \<lparr>accounts = [], totalBalance = Fin 0\<rparr>"

text \<open>
  A method either returns or throws, and in both cases leaves a bank state behind:
  the outcome is the pair of both.
\<close>

type_synonym 'a outcome = "(error + 'a) \<times> bank"

text \<open>\<open>Map.has\<close>, \<open>Map.get\<close> (\<open>None\<close> for \<open>undefined\<close>) and \<open>Map.set\<close>.\<close>

definition map_has :: "(string \<times> account) list \<Rightarrow> string \<Rightarrow> bool" where
  "map_has m k = (k \<in> set (map fst m))"

definition map_get :: "(string \<times> account) list \<Rightarrow> string \<Rightarrow> account option" where
  "map_get m k = map_of m k"

definition map_set :: "(string \<times> account) list \<Rightarrow> string \<Rightarrow> account \<Rightarrow> (string \<times> account) list" where
  "map_set m k v = AList.update k v m"

text \<open>
  An assignment to a field of the account object behind reference \<open>r\<close>:
  \<open>modify r f b\<close> replaces the object by its image under \<open>f\<close>.
\<close>

definition modify :: "string \<Rightarrow> (account \<Rightarrow> account) \<Rightarrow> bank \<Rightarrow> bank" where
  "modify r f b = b\<lparr>accounts := map (\<lambda>(k, a). if k = r then (k, f a) else (k, a)) (accounts b)\<rparr>"

subsection \<open>\<open>BankImpl\<close>\<close>

definition getTotalBalance :: "bank \<Rightarrow> number" where
  "getTotalBalance b = totalBalance b"

text \<open>\<open>BankImpl.deposit\<close> and \<open>BankImpl.withdraw\<close> only adjust the total.\<close>

definition bank_deposit :: "number \<Rightarrow> bank \<Rightarrow> bank" where
  "bank_deposit amount b = b\<lparr>totalBalance := num_add (totalBalance b) amount\<rparr>"

definition bank_withdraw :: "number \<Rightarrow> bank \<Rightarrow> bank" where
  "bank_withdraw amount b = b\<lparr>totalBalance := num_sub (totalBalance b) amount\<rparr>"

text \<open>
  \<open>getAccountByName\<close> returns the object stored under \<open>name\<close>, that is its reference,
  or throws when \<open>Map.get\<close> gives \<open>undefined\<close>.
\<close>

definition getAccountByName :: "string \<Rightarrow> bank \<Rightarrow> error + string" where
  "getAccountByName nm b =
     (case map_get (accounts b) nm of
        None \<Rightarrow> Inl MissingAccountError
      | Some account \<Rightarrow> Inr nm)"

text \<open>
  The constructor of \<open>AccountImpl\<close>: the parameter properties are assigned, the balance is
  validated, the field \<open>name\<close> is overwritten with the trimmed parameter, and then the
  length of the parameter \<open>name\<close> (not of the field) is compared with \<open>0\<close>.
\<close>

definition AccountImpl :: "string \<Rightarrow> number \<Rightarrow> error + account" where
  "AccountImpl nm bal =
     (case validateAmount bal of
        Inl e \<Rightarrow> Inl e
      | Inr _ \<Rightarrow>
          if length nm = 0 then Inl InvalidNameError
          else Inr \<lparr>name = trim nm, balance = bal\<rparr>)"

text \<open>\<open>createAccount\<close> returns the reference to the new account, which is its key.\<close>

definition createAccount :: "string \<Rightarrow> number \<Rightarrow> bank \<Rightarrow> string outcome" where
  "createAccount nm bal b =
     (case validateAmount bal of
        Inl e \<Rightarrow> (Inl e, b)
      | Inr _ \<Rightarrow>
          if map_has (accounts b) nm then (Inl NameAlreadyExistsError, b)
          else
            (case AccountImpl nm bal of
               Inl e \<Rightarrow> (Inl e, b)
             | Inr account \<Rightarrow>
                 (Inr nm,
                  b\<lparr>accounts := map_set (accounts b) nm account,
                    totalBalance := num_add (totalBalance b) bal\<rparr>)))"

subsection \<open>\<open>AccountImpl\<close>\<close>

text \<open>
  The methods of an account are called on a reference \<open>this\<close>. A caller can only hold
  a reference that \<open>createAccount\<close> returned; for any other string the call does not
  exist, which is the result \<open>None\<close>.
\<close>

definition checkBalance :: "string \<Rightarrow> bank \<Rightarrow> number option" where
  "checkBalance this b = map_option balance (map_get (accounts b) this)"

definition receiveTransfer :: "string \<Rightarrow> number \<Rightarrow> bank \<Rightarrow> bank" where
  "receiveTransfer this amount b = modify this (\<lambda>a. a\<lparr>balance := num_add (balance a) amount\<rparr>) b"

definition deposit :: "string \<Rightarrow> number \<Rightarrow> bank \<Rightarrow> unit outcome option" where
  "deposit this amount b =
     (case map_get (accounts b) this of
        None \<Rightarrow> None
      | Some self \<Rightarrow> Some
          (case validateAmount amount of
             Inl e \<Rightarrow> (Inl e, b)
           | Inr _ \<Rightarrow>
               (Inr (),
                bank_deposit amount
                  (modify this (\<lambda>a. a\<lparr>balance := num_add (balance a) amount\<rparr>) b))))"

definition withdraw :: "string \<Rightarrow> number \<Rightarrow> bank \<Rightarrow> unit outcome option" where
  "withdraw this amount b =
     (case map_get (accounts b) this of
        None \<Rightarrow> None
      | Some self \<Rightarrow> Some
          (case validateAmount amount of
             Inl e \<Rightarrow> (Inl e, b)
           | Inr _ \<Rightarrow>
               if num_lt (balance self) amount then (Inl InsufficientBalanceError, b)
               else
                 (Inr (),
                  bank_withdraw amount
                    (modify this (\<lambda>a. a\<lparr>balance := num_sub (balance a) amount\<rparr>) b))))"

definition transfer :: "string \<Rightarrow> string \<Rightarrow> number \<Rightarrow> bank \<Rightarrow> unit outcome option" where
  "transfer this recipient amount b =
     (case map_get (accounts b) this of
        None \<Rightarrow> None
      | Some self \<Rightarrow> Some
          (case validateAmount amount of
             Inl e \<Rightarrow> (Inl e, b)
           | Inr _ \<Rightarrow>
               if num_lt (balance self) amount then (Inl InsufficientBalanceError, b)
               else if name self = recipient then (Inr (), b)
               else
                 (case getAccountByName recipient b of
                    Inl e \<Rightarrow> (Inl e, b)
                  | Inr recipientAccount \<Rightarrow>
                      (Inr (),
                       receiveTransfer recipientAccount amount
                         (modify this (\<lambda>a. a\<lparr>balance := num_sub (balance a) amount\<rparr>) b)))))"

subsection \<open>\<open>ManagerImpl\<close>\<close>

definition getTotalBankBalance :: "bank \<Rightarrow> number" where
  "getTotalBankBalance b = getTotalBalance b"

section \<open>Sequences of calls\<close>

text \<open>
  What a client of the bank can do: create accounts, and call \<open>deposit\<close>, \<open>withdraw\<close>
  and \<open>transfer\<close> on the references it holds. \<open>exec\<close> gives the state a call leaves
  behind, whether it returned or threw (the client may catch the exception and go on),
  and \<open>returns\<close> says that it returned. \<open>run\<close> makes the calls of a list in order.
\<close>

datatype call =
    CreateAccount string number
  | Deposit string number
  | Withdraw string number
  | Transfer string string number

fun perform :: "call \<Rightarrow> bank \<Rightarrow> unit outcome option" where
  "perform (CreateAccount nm bal) b = Some (map_prod (map_sum id (\<lambda>_. ())) id (createAccount nm bal b))"
| "perform (Deposit this amount) b = deposit this amount b"
| "perform (Withdraw this amount) b = withdraw this amount b"
| "perform (Transfer this recipient amount) b = transfer this recipient amount b"

definition exec :: "call \<Rightarrow> bank \<Rightarrow> bank option" where
  "exec c b = map_option snd (perform c b)"

definition returns :: "call \<Rightarrow> bank \<Rightarrow> bool" where
  "returns c b = (case perform c b of Some (Inr _, _) \<Rightarrow> True | _ \<Rightarrow> False)"

fun run :: "call list \<Rightarrow> bank \<Rightarrow> bank option" where
  "run [] b = Some b"
| "run (c # cs) b = (case exec c b of None \<Rightarrow> None | Some b' \<Rightarrow> run cs b')"

fun amount_of :: "call \<Rightarrow> number" where
  "amount_of (CreateAccount nm bal) = bal"
| "amount_of (Deposit this amount) = amount"
| "amount_of (Withdraw this amount) = amount"
| "amount_of (Transfer this recipient amount) = amount"

fun is_finite :: "number \<Rightarrow> bool" where
  "is_finite (Fin x) = True"
| "is_finite PosInf = False"
| "is_finite NegInf = False"
| "is_finite NaN = False"

text \<open>A \<open>number\<close> that is an integer.\<close>

fun is_integer :: "number \<Rightarrow> bool" where
  "is_integer (Fin x) = (x = of_int \<lfloor>x\<rfloor>)"
| "is_integer PosInf = False"
| "is_integer NegInf = False"
| "is_integer NaN = False"

text \<open>The value of a finite number (and 0 for the special values).\<close>

fun real_of :: "number \<Rightarrow> real" where
  "real_of (Fin x) = x"
| "real_of PosInf = 0"
| "real_of NegInf = 0"
| "real_of NaN = 0"

text \<open>
  What a call can add to the money in the bank: the amount of a \<open>createAccount\<close> or of a
  \<open>deposit\<close>, when it is positive.
\<close>

fun credit :: "call \<Rightarrow> real" where
  "credit (CreateAccount nm bal) = max 0 (real_of bal)"
| "credit (Deposit this amount) = max 0 (real_of amount)"
| "credit (Withdraw this amount) = 0"
| "credit (Transfer this recipient amount) = 0"

text \<open>
  The sum of the balances of all accounts of the bank, added up in the arithmetic of the
  source.
\<close>

fun num_sum :: "number list \<Rightarrow> number" where
  "num_sum [] = Fin 0"
| "num_sum (x # xs) = num_add x (num_sum xs)"

definition balances :: "bank \<Rightarrow> number list" where
  "balances b = map (\<lambda>(k, a). balance a) (accounts b)"

text \<open>\<open>all_return cs b\<close>: every call of \<open>cs\<close>, made in order from \<open>b\<close>, returns.\<close>

fun all_return :: "call list \<Rightarrow> bank \<Rightarrow> bool" where
  "all_return [] b = True"
| "all_return (c # cs) b =
     (returns c b \<and> (case exec c b of None \<Rightarrow> False | Some b' \<Rightarrow> all_return cs b'))"

text \<open>The specification's notion of a valid amount: a positive finite number.\<close>

fun positive_finite :: "number \<Rightarrow> bool" where
  "positive_finite (Fin x) = (0 < x)"
| "positive_finite PosInf = False"
| "positive_finite NegInf = False"
| "positive_finite NaN = False"

text \<open>The calls of the test \<open>overall scenario\<close> of the source.\<close>

definition scenario_A :: "call list" where
  "scenario_A =
     [CreateAccount ''Erin'' (Fin 50), CreateAccount ''Paul'' (Fin 20),
      Deposit ''Erin'' (Fin 30), Transfer ''Erin'' ''Paul'' (Fin 25),
      Withdraw ''Paul'' (Fin 30)]"

text \<open>
  Concrete banks: the one the tests of \<open>Account\<close> start from (\<open>Erin\<close> with 50), the one
  the tests of \<open>transfer\<close> start from (\<open>Erin\<close> with 50 and \<open>Paul\<close> with 20), and banks
  with an account created under a name with surrounding spaces.
\<close>

definition bank_Erin :: bank where
  "bank_Erin =
     \<lparr>accounts = [(''Erin'', \<lparr>name = ''Erin'', balance = Fin 50\<rparr>)], totalBalance = Fin 50\<rparr>"

definition bank_Erin_Paul :: bank where
  "bank_Erin_Paul =
     \<lparr>accounts = [(''Erin'', \<lparr>name = ''Erin'', balance = Fin 50\<rparr>),
                  (''Paul'', \<lparr>name = ''Paul'', balance = Fin 20\<rparr>)],
      totalBalance = Fin 70\<rparr>"

definition bank_padded :: bank where
  "bank_padded =
     \<lparr>accounts = [('' Erin '', \<lparr>name = ''Erin'', balance = Fin 50\<rparr>)], totalBalance = Fin 50\<rparr>"

definition bank_padded_Erin :: bank where
  "bank_padded_Erin =
     \<lparr>accounts = [('' Erin '', \<lparr>name = ''Erin'', balance = Fin 50\<rparr>),
                  (''Erin'', \<lparr>name = ''Erin'', balance = Fin 20\<rparr>)],
      totalBalance = Fin 70\<rparr>"

definition bank_three :: bank where
  "bank_three =
     \<lparr>accounts = [(''Erin'', \<lparr>name = ''Erin'', balance = Fin 50\<rparr>),
                  ('' Erin '', \<lparr>name = ''Erin'', balance = Fin 20\<rparr>),
                  (''Paul'', \<lparr>name = ''Paul'', balance = Fin 30\<rparr>)],
      totalBalance = Fin 100\<rparr>"

definition bank_Paul :: bank where
  "bank_Paul =
     \<lparr>accounts = [(''Paul'', \<lparr>name = ''Paul'', balance = Fin 30\<rparr>)], totalBalance = Fin 30\<rparr>"

definition bank_Paul_padded :: bank where
  "bank_Paul_padded =
     \<lparr>accounts = [(''Paul'', \<lparr>name = ''Paul'', balance = Fin 30\<rparr>),
                  ('' Erin '', \<lparr>name = ''Erin'', balance = Fin 20\<rparr>)],
      totalBalance = Fin 50\<rparr>"

text \<open>
  The numbers that the literals \<open>0.1\<close>, \<open>0.2\<close> and \<open>0.3\<close> of the language denote, and the
  least positive integer whose successor is not representable.
\<close>

definition lit_0_1 :: real where
  "lit_0_1 = 3602879701896397 / 36028797018963968"

definition lit_0_2 :: real where
  "lit_0_2 = 3602879701896397 / 18014398509481984"

definition lit_0_3 :: real where
  "lit_0_3 = 5404319552844595 / 18014398509481984"

definition two_53 :: real where
  "two_53 = 9007199254740992"

section \<open>Invariants\<close>

text \<open>The exact sum of the balances of a bank.\<close>

definition rsum :: "bank \<Rightarrow> real" where
  "rsum b = sum_list (map real_of (balances b))"

text \<open>A \<open>number\<close> that is a natural number.\<close>

definition natural :: "number \<Rightarrow> bool" where
  "natural v = (\<exists>n::int. 0 \<le> n \<and> v = Fin (of_int n))"

text \<open>
  An exact bank with bound \<open>B\<close>: the keys of the registry are distinct, every balance is
  a natural number, and the total balance is the exact sum of the balances, which is at
  most \<open>B\<close>.
\<close>

definition exact_bank :: "real \<Rightarrow> bank \<Rightarrow> bool" where
  "exact_bank B b =
     (distinct (map fst (accounts b)) \<and>
      (\<forall>k a. map_of (accounts b) k = Some a \<longrightarrow> natural (balance a)) \<and>
      totalBalance b = Fin (rsum b) \<and> rsum b \<le> B)"

text \<open>No balance of the bank is negative or \<open>NaN\<close>.\<close>

definition nonneg_balances :: "bank \<Rightarrow> bool" where
  "nonneg_balances b = (\<forall>k a. map_of (accounts b) k = Some a \<longrightarrow> num_le (Fin 0) (balance a))"

text \<open>Every account object stores the trimmed form of the key it is registered under.\<close>

definition names_trimmed :: "bank \<Rightarrow> bool" where
  "names_trimmed b = (\<forall>k a. map_of (accounts b) k = Some a \<longrightarrow> name a = trim k)"

section \<open>Rounding\<close>

lemma ilog2_bounds:
  "1 \<le> n \<Longrightarrow> 0 \<le> ilog2 n \<and> 2 ^ nat (ilog2 n) \<le> n \<and> n < 2 * 2 ^ nat (ilog2 n)"
proof (induction n rule: ilog2.induct)
  case (1 n)
  show ?case
  proof (cases "n \<le> 1")
    case True
    with "1.prems" have "n = 1" by simp
    then show ?thesis by (simp add: ilog2.simps)
  next
    case False
    then have h: "1 \<le> n div 2" by simp
    from "1.IH" [OF False h] have ih: "0 \<le> ilog2 (n div 2)"
      "2 ^ nat (ilog2 (n div 2)) \<le> n div 2" "n div 2 < 2 * 2 ^ nat (ilog2 (n div 2))"
      by simp_all
    from False have e: "ilog2 n = 1 + ilog2 (n div 2)" by (subst ilog2.simps) simp
    from ih(1) have p: "(2::int) ^ nat (1 + ilog2 (n div 2)) = 2 * 2 ^ nat (ilog2 (n div 2))"
      by (simp add: nat_add_distrib)
    from ih show ?thesis unfolding e p by linarith
  qed
qed

lemma ulp_pos: "0 < ulp q"
  by (simp add: ulp_def)

lemma round_half_even_of_int [simp]: "round_half_even (of_int m) = m"
  by (simp add: round_half_even_def)

lemma round_half_even_nonneg: "0 \<le> x \<Longrightarrow> 0 \<le> round_half_even x"
  by (auto simp: round_half_even_def Let_def)

text \<open>The rounded value of a number that is not negative is not negative.\<close>

lemma round64_nonneg:
  assumes "0 \<le> q"
  shows "round64 q = PosInf \<or> (\<exists>r. round64 q = Fin r \<and> 0 \<le> r)"
proof -
  from assms ulp_pos [of q] have "0 \<le> q / ulp q" by simp
  then have "0 \<le> round_half_even (q / ulp q)" by (rule round_half_even_nonneg)
  with ulp_pos [of q] have "0 \<le> of_int (round_half_even (q / ulp q)) * ulp q" by simp
  then show ?thesis by (auto simp: round64_def Let_def)
qed

text \<open>The natural numbers up to \<open>2^53\<close> are representable: rounding leaves them as they are.\<close>

lemma round64_of_int:
  assumes "0 \<le> k" and "k \<le> 2 ^ 53"
  shows "round64 (of_int k) = Fin (of_int k)"
proof (cases "k = 0")
  case True
  then show ?thesis by (simp add: round64_def round_half_even_def)
next
  case False
  with assms(1) have k1: "1 \<le> k" by simp
  define e where "e = ilog2 k"
  from ilog2_bounds [OF k1] have e0: "0 \<le> e" and lo: "2 ^ nat e \<le> k" and hi: "k < 2 * 2 ^ nat e"
    by (simp_all add: e_def)
  from k1 have b: "binade (of_int k) = e" using e0 by (simp add: binade_def e_def)
  have e53: "e \<le> 53"
  proof (rule ccontr)
    assume "\<not> e \<le> 53"
    then have "54 \<le> nat e" by simp
    then have "(2::int) ^ 54 \<le> 2 ^ nat e" by (intro power_increasing) simp_all
    with lo assms(2) show False by simp
  qed
  have "\<exists>m. real_of_int k / ulp (of_int k) = of_int m"
  proof (cases "e \<le> 52")
    case True
    then have "(2::real) powi (52 - e) = 2 ^ nat (52 - e)"
      by (simp add: power_int_def)
    moreover have "(2::real) powi (e - 52) = 1 / 2 powi (52 - e)"
      using power_int_minus_divide [of "2::real" "52 - e"] by simp
    ultimately have "ulp (of_int k) = 1 / 2 ^ nat (52 - e)"
      by (simp add: ulp_def b)
    then have "real_of_int k / ulp (of_int k) = of_int (k * 2 ^ nat (52 - e))" by simp
    then show ?thesis ..
  next
    case False
    with e53 have e: "e = 53" by simp
    with lo assms(2) have "k = 2 ^ 53" by simp
    moreover have "ulp (of_int k) = 2" by (simp add: ulp_def b e)
    ultimately have "real_of_int k / ulp (of_int k) = of_int (2 ^ 52)"
      by simp
    then show ?thesis ..
  qed
  then obtain m where m: "real_of_int k / ulp (of_int k) = of_int m" ..
  have "of_int (round_half_even (real_of_int k / ulp (of_int k))) * ulp (of_int k) =
      real_of_int k / ulp (of_int k) * ulp (of_int k)"
    by (simp only: m round_half_even_of_int)
  then have r: "of_int (round_half_even (real_of_int k / ulp (of_int k))) * ulp (of_int k) = of_int k"
    using ulp_pos [of "of_int k"] by simp
  from assms have "real_of_int k \<le> 2 ^ 53" by (metis of_int_le_iff of_int_numeral of_int_power)
  then have "real_of_int k < 2 ^ 1024" by (rule order_le_less_trans) simp
  moreover from assms(1) have "- (2 ^ 1024) < real_of_int k"
    by (rule_tac order_less_le_trans [of _ 0]) simp_all
  ultimately show ?thesis by (simp add: round64_def r)
qed

lemma round64_numeral [simp]:
  "numeral k \<le> (9007199254740992::int) \<Longrightarrow> round64 (numeral k) = Fin (numeral k)"
  using round64_of_int [of "numeral k"] by simp

lemma round64_0 [simp]: "round64 0 = Fin 0"
  using round64_of_int [of 0] by simp

lemma round64_1 [simp]: "round64 1 = Fin 1"
  using round64_of_int [of 1] by simp

text \<open>
  The rounded value is within half the spacing of the exact value, and the exponent is
  the one of the binade of the exact value.
\<close>

lemma round_half_even_error: "\<bar>of_int (round_half_even x) - x\<bar> \<le> 1 / 2"
proof -
  have "of_int \<lfloor>x\<rfloor> \<le> x" "x < of_int \<lfloor>x\<rfloor> + 1" by linarith+
  then show ?thesis by (auto simp: round_half_even_def Let_def)
qed

lemma round64_error:
  assumes "round64 q = Fin r"
  shows "\<bar>r - q\<bar> \<le> ulp q / 2"
proof -
  from assms have r: "r = of_int (round_half_even (q / ulp q)) * ulp q"
    by (auto simp: round64_def Let_def split: if_splits)
  have "r - q = (of_int (round_half_even (q / ulp q)) - q / ulp q) * ulp q"
    using ulp_pos [of q] by (simp add: r left_diff_distrib)
  then have "\<bar>r - q\<bar> = \<bar>of_int (round_half_even (q / ulp q)) - q / ulp q\<bar> * ulp q"
    using ulp_pos [of q] by (simp only: abs_mult abs_of_pos)
  also have "\<dots> \<le> 1 / 2 * ulp q"
    using round_half_even_error [of "q / ulp q"] ulp_pos [of q]
    by (intro mult_right_mono) simp_all
  finally show ?thesis by simp
qed

lemma binade_bounds:
  assumes "2 powi (- 1022) \<le> \<bar>q\<bar>"
  shows "2 powi binade q \<le> \<bar>q\<bar> \<and> \<bar>q\<bar> < 2 powi (binade q + 1)"
proof (cases "1 \<le> \<bar>q\<bar>")
  case True
  define n where "n = \<lfloor>\<bar>q\<bar>\<rfloor>"
  from True have n1: "1 \<le> n" by (simp add: n_def le_floor_iff)
  from ilog2_bounds [OF n1] have e0: "0 \<le> ilog2 n" and lo: "2 ^ nat (ilog2 n) \<le> n"
    and hi: "n < 2 * 2 ^ nat (ilog2 n)" by simp_all
  from True e0 have b: "binade q = ilog2 n" by (simp add: binade_def n_def)
  have p: "(2::real) powi ilog2 n = 2 ^ nat (ilog2 n)" using e0 by (simp add: power_int_def)
  have p1: "(2::real) powi (ilog2 n + 1) = 2 * 2 ^ nat (ilog2 n)"
    using e0 by (simp add: power_int_def nat_add_distrib)
  have nq: "real_of_int n \<le> \<bar>q\<bar>" "\<bar>q\<bar> < real_of_int n + 1" unfolding n_def by linarith+
  from lo have "real_of_int (2 ^ nat (ilog2 n)) \<le> real_of_int n"
    by (simp only: of_int_le_iff)
  then have lo': "(2::real) ^ nat (ilog2 n) \<le> real_of_int n" by simp
  from hi have "n + 1 \<le> 2 * 2 ^ nat (ilog2 n)" by simp
  then have "real_of_int (n + 1) \<le> real_of_int (2 * 2 ^ nat (ilog2 n))"
    by (simp only: of_int_le_iff)
  then have hi': "real_of_int n + 1 \<le> 2 * 2 ^ nat (ilog2 n)" by simp
  from nq lo' hi' show ?thesis unfolding b p p1 by linarith
next
  case False
  then have q1: "\<bar>q\<bar> < 1" by simp
  from assms have q0: "0 < \<bar>q\<bar>" by (rule order_less_le_trans [rotated]) simp
  define x where "x = 1 / \<bar>q\<bar>"
  define m where "m = \<lceil>x\<rceil>"
  define k where "k = 1 + ilog2 (m - 1)"
  from q0 q1 have x1: "1 < x" by (simp add: x_def)
  then have m2: "1 \<le> m - 1" unfolding m_def by linarith
  from ilog2_bounds [OF m2] have e0: "0 \<le> ilog2 (m - 1)"
    and lo: "2 ^ nat (ilog2 (m - 1)) \<le> m - 1" and hi: "m - 1 < 2 * 2 ^ nat (ilog2 (m - 1))"
    by simp_all
  have xm: "x \<le> real_of_int m" "real_of_int m - 1 < x" unfolding m_def by linarith+
  from hi have "m \<le> 2 * 2 ^ nat (ilog2 (m - 1))" by simp
  then have "real_of_int m \<le> real_of_int (2 * 2 ^ nat (ilog2 (m - 1)))"
    by (simp only: of_int_le_iff)
  then have "real_of_int m \<le> 2 * 2 ^ nat (ilog2 (m - 1))" by simp
  with xm(1) have xu: "x \<le> 2 * 2 ^ nat (ilog2 (m - 1))" by linarith
  from lo have "real_of_int (2 ^ nat (ilog2 (m - 1))) \<le> real_of_int (m - 1)"
    by (simp only: of_int_le_iff)
  then have "(2::real) ^ nat (ilog2 (m - 1)) \<le> real_of_int m - 1" by simp
  with xm(2) have xl: "2 ^ nat (ilog2 (m - 1)) < x" by linarith
  have pk: "(2::real) powi (- k) = 1 / (2 * 2 ^ nat (ilog2 (m - 1)))"
    using e0 by (simp add: k_def power_int_def nat_add_distrib field_simps)
  have pk1: "(2::real) powi (- k + 1) = 1 / 2 ^ nat (ilog2 (m - 1))"
    using e0 by (simp add: k_def power_int_def field_simps)
  from xu q0 have lower: "2 powi (- k) \<le> \<bar>q\<bar>"
    unfolding pk x_def by (simp add: field_simps)
  from xl q0 have upper: "\<bar>q\<bar> < 2 powi (- k + 1)"
    unfolding pk1 x_def by (simp add: field_simps)
  have "- 1022 \<le> - k"
  proof (rule ccontr)
    assume "\<not> - 1022 \<le> - k"
    then have "- k + 1 \<le> - 1022" by simp
    then have "(2::real) powi (- k + 1) \<le> 2 powi (- 1022)"
      by (intro power_int_increasing) simp_all
    with upper assms show False by simp
  qed
  with False have "binade q = - k" by (simp add: binade_def k_def m_def x_def)
  with lower upper show ?thesis by simp
qed


lemma ilog2_eqI:
  assumes "0 \<le> e" and "2 ^ nat e \<le> n" and "n < 2 * 2 ^ nat e"
  shows "ilog2 n = e"
proof -
  from assms(2) have n1: "1 \<le> n" by (rule order_trans [rotated]) simp
  from ilog2_bounds [OF n1] have i0: "0 \<le> ilog2 n" and lo: "2 ^ nat (ilog2 n) \<le> n"
    and hi: "n < 2 * 2 ^ nat (ilog2 n)" by simp_all
  show ?thesis
  proof (rule ccontr)
    assume "ilog2 n \<noteq> e"
    then consider "ilog2 n < e" | "e < ilog2 n" by linarith
    then show False
    proof cases
      case 1
      with i0 have "Suc (nat (ilog2 n)) \<le> nat e" by simp
      then have "(2::int) ^ Suc (nat (ilog2 n)) \<le> 2 ^ nat e" by (intro power_increasing) simp_all
      with hi assms(2) show False by simp
    next
      case 2
      with assms(1) have "Suc (nat e) \<le> nat (ilog2 n)" by simp
      then have "(2::int) ^ Suc (nat e) \<le> 2 ^ nat (ilog2 n)" by (intro power_increasing) simp_all
      with lo assms(3) show False by simp
    qed
  qed
qed

text \<open>
  Rounding on concrete numbers: the literals \<open>0.1\<close>, \<open>0.2\<close> and \<open>0.3\<close>, the sum
  \<open>0.1 + 0.2\<close>, which is not the number \<open>0.3\<close>, the first integers that are not
  representable, and a sum that overflows.
\<close>

lemmas round64_defs =
  round64_def ulp_def binade_def ilog2.simps round_half_even_def

lemma round64_examples:
  "round64 (1 / 10) = Fin lit_0_1"
  "round64 (2 / 10) = Fin lit_0_2"
  "round64 (3 / 10) = Fin lit_0_3"
  "num_add (Fin lit_0_1) (Fin lit_0_2) = Fin (5404319552844596 / 18014398509481984)"
  "num_add (Fin two_53) (Fin 1) = Fin two_53"
  "num_add (Fin two_53) (Fin 3) = Fin (two_53 + 4)"
  by (simp_all add: lit_0_1_def lit_0_2_def lit_0_3_def two_53_def round64_defs)

lemma overflow_example: "num_add (Fin (2 ^ 1023)) (Fin (2 ^ 1023)) = PosInf"
proof -
  have "ilog2 (2 ^ 1024) = 1024" by (rule ilog2_eqI) simp_all
  then show ?thesis by (simp add: round64_def ulp_def binade_def round_half_even_def)
qed

section \<open>Amount validation\<close>

lemma validateAmount_Inr: "validateAmount (Fin y) = Inr u \<longleftrightarrow> 0 < y"
  by (auto simp: validateAmount_def)

lemma validateAmount_positive: "num_lt (Fin 0) a \<Longrightarrow> validateAmount a = Inr ()"
  by (cases a) (simp_all add: validateAmount_def)

lemma sufficient_not_less: "num_le a c \<Longrightarrow> \<not> num_lt c a"
  by (cases a; cases c) simp_all

text \<open>
  C3 (as the source has it). \<open>validateAmount\<close> throws \<open>InvalidAmountError\<close> exactly for
  the amounts that compare \<open><= 0\<close>: zero, the negative numbers and \<open>-Infinity\<close>. Every
  amount greater than \<open>0\<close> passes, \<open>Infinity\<close> included, and so does \<open>NaN\<close>, for which
  the comparison is false. When \<open>validateAmount\<close> throws for an amount, then so do
  \<open>createAccount\<close>, \<open>deposit\<close>, \<open>withdraw\<close> and \<open>transfer\<close> with that amount, with the
  same error and without any change of the bank.
\<close>

theorem validateAmount_throws_iff:
  "(validateAmount a = Inl InvalidAmountError \<longleftrightarrow> a = NegInf \<or> (\<exists>x. a = Fin x \<and> x \<le> 0)) \<and>
   (validateAmount a = Inr () \<longleftrightarrow> a = NaN \<or> a = PosInf \<or> (\<exists>x. a = Fin x \<and> 0 < x)) \<and>
   (num_lt (Fin 0) a \<longrightarrow> validateAmount a = Inr ()) \<and>
   (validateAmount a = Inl InvalidAmountError \<longrightarrow>
      createAccount nm a b = (Inl InvalidAmountError, b) \<and>
      (map_get (accounts b) this \<noteq> None \<longrightarrow>
         deposit this a b = Some (Inl InvalidAmountError, b) \<and>
         withdraw this a b = Some (Inl InvalidAmountError, b) \<and>
         transfer this recipient a b = Some (Inl InvalidAmountError, b)))"
proof -
  have "validateAmount a = Inl InvalidAmountError \<longleftrightarrow> a = NegInf \<or> (\<exists>x. a = Fin x \<and> x \<le> 0)"
    by (cases a) (auto simp: validateAmount_def)
  moreover have "validateAmount a = Inr () \<longleftrightarrow> a = NaN \<or> a = PosInf \<or> (\<exists>x. a = Fin x \<and> 0 < x)"
    by (cases a) (auto simp: validateAmount_def)
  moreover have "num_lt (Fin 0) a \<longrightarrow> validateAmount a = Inr ()"
    by (simp add: validateAmount_positive)
  moreover have "createAccount nm a b = (Inl InvalidAmountError, b)"
    if "validateAmount a = Inl InvalidAmountError"
    using that by (simp add: createAccount_def)
  moreover have "deposit this a b = Some (Inl InvalidAmountError, b) \<and>
      withdraw this a b = Some (Inl InvalidAmountError, b) \<and>
      transfer this recipient a b = Some (Inl InvalidAmountError, b)"
    if "validateAmount a = Inl InvalidAmountError" "map_get (accounts b) this \<noteq> None"
    using that by (auto simp: deposit_def withdraw_def transfer_def)
  ultimately show ?thesis by blast
qed

theorem validateAmount_throws_iff_witness:
  "num_lt (Fin 0) (Fin 25) \<and> validateAmount (Fin 25) = Inr () \<and>
   validateAmount (Fin 0) = Inl InvalidAmountError \<and>
   validateAmount (Fin (- 5)) = Inl InvalidAmountError \<and>
   map_get (accounts bank_Erin) ''Erin'' \<noteq> None \<and>
   createAccount ''Paul'' (Fin (- 5)) bank_Erin = (Inl InvalidAmountError, bank_Erin) \<and>
   deposit ''Erin'' (Fin (- 5)) bank_Erin = Some (Inl InvalidAmountError, bank_Erin) \<and>
   withdraw ''Erin'' (Fin (- 5)) bank_Erin = Some (Inl InvalidAmountError, bank_Erin) \<and>
   transfer ''Erin'' ''Paul'' (Fin (- 5)) bank_Erin = Some (Inl InvalidAmountError, bank_Erin)"
proof -
  have g: "map_get (accounts bank_Erin) ''Erin'' \<noteq> None"
    by (simp add: bank_Erin_def map_get_def)
  from validateAmount_throws_iff [of "Fin 25"] validateAmount_throws_iff [of "Fin 0"]
    validateAmount_throws_iff [of "Fin (- 5)" "''Paul''" bank_Erin "''Erin''" "''Paul''"] g
  show ?thesis by simp
qed

text \<open>
  C3 (as the specification has it) fails: \<open>Infinity\<close> and \<open>NaN\<close> are not positive finite
  numbers, and \<open>validateAmount\<close> accepts both.
\<close>

theorem validateAmount_nonfinite_counterexample:
  "\<not> positive_finite PosInf \<and> validateAmount PosInf = Inr () \<and>
   \<not> positive_finite NaN \<and> validateAmount NaN = Inr ()"
  by (simp add: validateAmount_def)


section \<open>The registry under field assignments\<close>

lemma keys_modify [simp]: "map fst (accounts (modify r f b)) = map fst (accounts b)"
  by (induction "accounts b" arbitrary: b) (auto simp: modify_def split: prod.splits)

lemma total_modify [simp]: "totalBalance (modify r f b) = totalBalance b"
  by (simp add: modify_def)

lemma map_of_modify_list:
  "map_of (map (\<lambda>(k, a). if k = r then (k, f a) else (k, a)) m) k =
     (if k = r then map_option f (map_of m k) else map_of m k)"
  by (induction m) auto

lemma map_of_modify [simp]:
  "map_of (accounts (modify r f b)) k =
     (if k = r then map_option f (map_of (accounts b) k) else map_of (accounts b) k)"
  by (simp add: modify_def map_of_modify_list)

lemma modify_absent:
  "r \<notin> fst ` set m \<Longrightarrow> map (\<lambda>(k, a). if k = r then (k, f a) else (k, a)) m = m"
  by (induction m) auto

lemma sum_modify_list:
  "distinct (map fst m) \<Longrightarrow> map_of m r = Some a \<Longrightarrow>
   sum_list (map (\<lambda>(k, a). real_of (balance a)) (map (\<lambda>(k, a). if k = r then (k, f a) else (k, a)) m)) =
   sum_list (map (\<lambda>(k, a). real_of (balance a)) m) - real_of (balance a) + real_of (balance (f a))"
proof (induction m)
  case Nil
  then show ?case by simp
next
  case (Cons p m)
  obtain k v where p: "p = (k, v)" by (cases p)
  show ?case
  proof (cases "k = r")
    case True
    with Cons.prems p have "r \<notin> fst ` set m" and "v = a" by auto
    then show ?thesis using p True by (simp add: modify_absent)
  next
    case False
    with Cons p show ?thesis by simp
  qed
qed


lemma rsum_modify:
  "distinct (map fst (accounts b)) \<Longrightarrow> map_of (accounts b) r = Some a \<Longrightarrow>
   rsum (modify r f b) = rsum b - real_of (balance a) + real_of (balance (f a))"
  using sum_modify_list [of "accounts b" r a f]
  by (simp add: rsum_def balances_def modify_def comp_def case_prod_unfold)

lemma update_fresh: "k \<notin> fst ` set m \<Longrightarrow> AList.update k v m = m @ [(k, v)]"
  by (induction m) auto


section \<open>Exact banks\<close>

lemma naturalD:
  assumes "natural v"
  obtains n :: int where "0 \<le> n" and "v = Fin (of_int n)"
  using assms unfolding natural_def by blast

lemma add_exact:
  assumes "0 \<le> m" and "0 \<le> n" and "real_of_int m + real_of_int n \<le> 2 ^ 53"
  shows "round64 (real_of_int m + real_of_int n) = Fin (real_of_int m + real_of_int n)"
proof -
  from assms(3) have "real_of_int (m + n) \<le> real_of_int (2 ^ 53)" by simp
  then have "m + n \<le> 2 ^ 53" by (simp only: of_int_le_iff)
  with assms(1,2) have "round64 (of_int (m + n)) = Fin (of_int (m + n))"
    by (intro round64_of_int) simp_all
  then show ?thesis by simp
qed

lemma sub_exact:
  assumes "0 \<le> n" and "n \<le> m" and "real_of_int m \<le> 2 ^ 53"
  shows "round64 (real_of_int m + - real_of_int n) = Fin (real_of_int m - real_of_int n)"
proof -
  from assms(3) have "real_of_int m \<le> real_of_int (2 ^ 53)" by simp
  then have "m \<le> 2 ^ 53" by (simp only: of_int_le_iff)
  with assms(1,2) have "round64 (of_int (m - n)) = Fin (of_int (m - n))"
    by (intro round64_of_int) simp_all
  then show ?thesis by simp
qed

lemma is_integerD:
  assumes "is_integer v"
  obtains n :: int where "v = Fin (of_int n)"
  using assms by (cases v) auto

lemma exact_bankD:
  assumes "exact_bank B b"
  shows "distinct (map fst (accounts b))"
    and "totalBalance b = Fin (rsum b)"
    and "rsum b \<le> B"
    and "\<forall>k a. map_of (accounts b) k = Some a \<longrightarrow> natural (balance a)"
  using assms unfolding exact_bank_def by blast+

lemma member_le_sum_list:
  fixes xs :: "real list"
  shows "\<forall>x\<in>set xs. 0 \<le> x \<Longrightarrow> y \<in> set xs \<Longrightarrow> y \<le> sum_list xs"
proof (induction xs)
  case Nil
  then show ?case by simp
next
  case (Cons x xs)
  then have "0 \<le> sum_list xs" by (auto intro: sum_list_nonneg)
  with Cons show ?case by auto
qed

lemma balance_le_rsum:
  assumes "\<forall>k a. map_of (accounts b) k = Some a \<longrightarrow> natural (balance a)"
    and "distinct (map fst (accounts b))"
    and "map_of (accounts b) k = Some a"
  shows "real_of (balance a) \<le> rsum b"
proof -
  have "0 \<le> real_of (balance a')" if "(k', a') \<in> set (accounts b)" for k' a'
  proof -
    from that assms(2) have "map_of (accounts b) k' = Some a'" by simp
    with assms(1) have "natural (balance a')" by blast
    then show ?thesis by (auto simp: natural_def)
  qed
  then have "\<forall>x\<in>set (map real_of (balances b)). 0 \<le> x"
    by (auto simp: balances_def)
  moreover from assms(3) have "(k, a) \<in> set (accounts b)" by (rule map_of_SomeD)
  then have "real_of (balance a) \<in> set (map real_of (balances b))"
    by (force simp: balances_def)
  ultimately show ?thesis unfolding rsum_def by (rule member_le_sum_list)
qed

lemma rsum_integer:
  assumes "\<forall>k a. map_of (accounts b) k = Some a \<longrightarrow> natural (balance a)"
    and "distinct (map fst (accounts b))"
  shows "\<exists>n::int. 0 \<le> n \<and> rsum b = of_int n"
proof -
  have "\<exists>n::int. 0 \<le> n \<and> sum_list (map real_of xs) = of_int n" if "\<forall>x\<in>set xs. natural x" for xs
    using that
  proof (induction xs)
    case Nil
    show ?case by (intro exI [of _ 0]) simp
  next
    case (Cons x xs)
    then obtain n :: int where n: "0 \<le> n" "sum_list (map real_of xs) = of_int n" by auto
    from Cons.prems obtain m :: int where m: "0 \<le> m" "x = Fin (of_int m)"
      by (auto elim: naturalD)
    from n m show ?case by (intro exI [of _ "m + n"]) simp
  qed
  moreover have "natural (balance a')" if "(k', a') \<in> set (accounts b)" for k' a'
  proof -
    from that assms(2) have "map_of (accounts b) k' = Some a'" by simp
    with assms(1) show ?thesis by blast
  qed
  then have "\<forall>x\<in>set (balances b). natural x" by (auto simp: balances_def)
  ultimately show ?thesis by (simp add: rsum_def)
qed

lemma exact_bank_createBank: "exact_bank 0 createBank"
  by (simp add: exact_bank_def createBank_def rsum_def balances_def)

lemma exact_bank_mono: "exact_bank B b \<Longrightarrow> B \<le> B' \<Longrightarrow> exact_bank B' b"
  by (auto simp: exact_bank_def)


lemma validateAmount_of_int: "validateAmount (Fin (real_of_int j)) = Inr u \<longleftrightarrow> 0 < j"
  by (auto simp: validateAmount_def)

lemma exact_bankI:
  assumes "distinct (map fst (accounts b))"
    and "\<And>k a. map_of (accounts b) k = Some a \<Longrightarrow> natural (balance a)"
    and "totalBalance b = Fin (rsum b)" and "rsum b \<le> B"
  shows "exact_bank B b"
  using assms unfolding exact_bank_def by blast

lemma exact_bank_deposit:
  assumes "exact_bank B b" and "B + max 0 (real_of_int j) \<le> 2 ^ 53"
    and "deposit this (Fin (of_int j)) b = Some (res, b')"
  shows "exact_bank (B + max 0 (real_of_int j)) b'"
proof (cases "0 < j")
  case False
  with assms(3) have "b' = b"
    by (auto simp: deposit_def validateAmount_def split: option.splits)
  with assms(1) show ?thesis by (auto intro: exact_bank_mono)
next
  case True
  note d = exact_bankD(1) [OF assms(1)] and t = exact_bankD(2) [OF assms(1)]
    and le = exact_bankD(3) [OF assms(1)] and nat = exact_bankD(4) [OF assms(1)]
  from assms(3) True obtain self where self: "map_of (accounts b) this = Some self"
    and b': "b' = bank_deposit (Fin (of_int j))
        (modify this (\<lambda>a. a\<lparr>balance := num_add (balance a) (Fin (of_int j))\<rparr>) b)"
    by (auto simp: deposit_def map_get_def validateAmount_def split: option.splits)
  from nat self have "natural (balance self)" by blast
  then obtain x :: int where x: "0 \<le> x" "balance self = Fin (of_int x)"
    by (rule naturalD)
  from rsum_integer [OF nat d] obtain T :: int where T: "0 \<le> T" "rsum b = of_int T"
    by blast
  from balance_le_rsum [OF nat d self] x have xT: "real_of_int x \<le> rsum b" by simp
  from True assms(2) le have bound: "rsum b + real_of_int j \<le> 2 ^ 53" by simp
  from True have j0: "0 \<le> j" by simp
  have nb: "num_add (balance self) (Fin (of_int j)) = Fin (of_int (x + j))"
    using add_exact [OF x(1) j0] xT bound by (simp add: x(2))
  have nt: "num_add (totalBalance b) (Fin (of_int j)) = Fin (rsum b + of_int j)"
    using add_exact [OF T(1) j0] bound by (simp add: t T(2))
  have r: "rsum b' = rsum b + of_int j"
    using rsum_modify [OF d self] x nb by (simp add: b' bank_deposit_def rsum_def balances_def)
  show ?thesis
  proof (rule exact_bankI)
    show "distinct (map fst (accounts b'))" using d by (simp add: b' bank_deposit_def)
    show "natural (balance a)" if "map_of (accounts b') k = Some a" for k a
    proof (cases "k = this")
      case True
      with that self nb have "balance a = Fin (of_int (x + j))"
        by (auto simp: b' bank_deposit_def)
      with x(1) j0 show ?thesis unfolding natural_def by (intro exI [of _ "x + j"]) simp
    next
      case False
      with that have "map_of (accounts b) k = Some a" by (simp add: b' bank_deposit_def)
      with nat show ?thesis by blast
    qed
    show "totalBalance b' = Fin (rsum b')" using nt r by (simp add: b' bank_deposit_def)
    show "rsum b' \<le> B + max 0 (real_of_int j)" using r le True by simp
  qed
qed


lemma exact_bank_withdraw:
  assumes "exact_bank B b" and "B \<le> 2 ^ 53"
    and "withdraw this (Fin (of_int j)) b = Some (res, b')"
  shows "exact_bank B b'"
proof -
  note d = exact_bankD(1) [OF assms(1)] and t = exact_bankD(2) [OF assms(1)]
    and le = exact_bankD(3) [OF assms(1)] and nat = exact_bankD(4) [OF assms(1)]
  from assms(3) obtain self where self: "map_of (accounts b) this = Some self"
    by (auto simp: withdraw_def map_get_def split: option.splits)
  from nat self have "natural (balance self)" by blast
  then obtain x :: int where x: "0 \<le> x" "balance self = Fin (of_int x)"
    by (rule naturalD)
  show ?thesis
  proof (cases "0 < j \<and> j \<le> x")
    case False
    with assms(3) self x have "b' = b"
      by (auto simp: withdraw_def map_get_def validateAmount_def split: if_splits)
    with assms(1) show ?thesis by simp
  next
    case True
    with assms(3) self x have b': "b' = bank_withdraw (Fin (of_int j))
        (modify this (\<lambda>a. a\<lparr>balance := num_sub (balance a) (Fin (of_int j))\<rparr>) b)"
      by (auto simp: withdraw_def map_get_def validateAmount_def)
    from rsum_integer [OF nat d] obtain T :: int where T: "0 \<le> T" "rsum b = of_int T"
      by blast
    from balance_le_rsum [OF nat d self] x have xT: "real_of_int x \<le> rsum b" by simp
    with T have xT': "x \<le> T" by simp
    from True have j0: "0 \<le> j" and jx: "j \<le> x" by simp_all
    from xT le assms(2) have x53: "real_of_int x \<le> 2 ^ 53" by simp
    from le assms(2) T have T53: "real_of_int T \<le> 2 ^ 53" by simp
    from jx xT' have jT: "j \<le> T" by simp
    have nb: "num_sub (balance self) (Fin (of_int j)) = Fin (of_int (x - j))"
      using sub_exact [OF j0 jx x53] by (simp add: x(2) num_sub_def)
    have nt: "num_sub (totalBalance b) (Fin (of_int j)) = Fin (rsum b - of_int j)"
      using sub_exact [OF j0 jT T53] by (simp add: t T(2) num_sub_def)
    have r: "rsum b' = rsum b - of_int j"
      using rsum_modify [OF d self] x nb by (simp add: b' bank_withdraw_def rsum_def balances_def)
    show ?thesis
    proof (rule exact_bankI)
      show "distinct (map fst (accounts b'))" using d by (simp add: b' bank_withdraw_def)
      show "natural (balance a)" if "map_of (accounts b') k = Some a" for k a
      proof (cases "k = this")
        case True
        with that self nb have "balance a = Fin (of_int (x - j))"
          by (auto simp: b' bank_withdraw_def)
        with jx show ?thesis unfolding natural_def by (intro exI [of _ "x - j"]) simp
      next
        case False
        with that have "map_of (accounts b) k = Some a" by (simp add: b' bank_withdraw_def)
        with nat show ?thesis by blast
      qed
      show "totalBalance b' = Fin (rsum b')" using nt r by (simp add: b' bank_withdraw_def)
      show "rsum b' \<le> B" using r le j0 by simp
    qed
  qed
qed

lemma exact_bank_transfer:
  assumes "exact_bank B b" and "B \<le> 2 ^ 53"
    and "transfer this recipient (Fin (of_int j)) b = Some (res, b')"
  shows "exact_bank B b'"
proof -
  note d = exact_bankD(1) [OF assms(1)] and t = exact_bankD(2) [OF assms(1)]
    and le = exact_bankD(3) [OF assms(1)] and nat = exact_bankD(4) [OF assms(1)]
  from assms(3) obtain self where self: "map_of (accounts b) this = Some self"
    by (auto simp: transfer_def map_get_def split: option.splits)
  from nat self have "natural (balance self)" by blast
  then obtain x :: int where x: "0 \<le> x" "balance self = Fin (of_int x)"
    by (rule naturalD)
  show ?thesis
  proof (cases "0 < j \<and> j \<le> x \<and> name self \<noteq> recipient \<and> map_of (accounts b) recipient \<noteq> None")
    case False
    with assms(3) self x have "b' = b"
      by (auto simp: transfer_def map_get_def validateAmount_def getAccountByName_def
          split: option.splits if_splits)
    with assms(1) show ?thesis by simp
  next
    case True
    then obtain racc where racc: "map_of (accounts b) recipient = Some racc" by blast
    define b1 where "b1 = modify this (\<lambda>a. a\<lparr>balance := num_sub (balance a) (Fin (of_int j))\<rparr>) b"
    from True assms(3) self x racc
    have b': "b' = modify recipient (\<lambda>a. a\<lparr>balance := num_add (balance a) (Fin (of_int j))\<rparr>) b1"
      by (auto simp: transfer_def map_get_def validateAmount_def getAccountByName_def
          receiveTransfer_def b1_def)
    from True have j0: "0 \<le> j" and jx: "j \<le> x" by simp_all
    from balance_le_rsum [OF nat d self] x have xT: "real_of_int x \<le> rsum b" by simp
    from xT le assms(2) have x53: "real_of_int x \<le> 2 ^ 53" by simp
    have nb: "num_sub (balance self) (Fin (of_int j)) = Fin (of_int (x - j))"
      using sub_exact [OF j0 jx x53] by (simp add: x(2) num_sub_def)
    have d1: "distinct (map fst (accounts b1))" using d by (simp add: b1_def)
    have s1: "rsum b1 = rsum b - of_int j"
      using rsum_modify [OF d self] x nb by (simp add: b1_def)
    have nat1: "\<forall>k a. map_of (accounts b1) k = Some a \<longrightarrow> natural (balance a)"
    proof (intro allI impI)
      fix k a assume ka: "map_of (accounts b1) k = Some a"
      show "natural (balance a)"
      proof (cases "k = this")
        case True
        with ka self nb have "balance a = Fin (of_int (x - j))" by (auto simp: b1_def)
        with jx show ?thesis unfolding natural_def by (intro exI [of _ "x - j"]) simp
      next
        case False
        with ka have "map_of (accounts b) k = Some a" by (simp add: b1_def)
        with nat show ?thesis by blast
      qed
    qed
    from racc self obtain a1 where a1: "map_of (accounts b1) recipient = Some a1"
      by (cases "recipient = this") (auto simp: b1_def)
    from nat1 a1 have "natural (balance a1)" by blast
    then obtain w :: int where w: "0 \<le> w" "balance a1 = Fin (of_int w)" by (rule naturalD)
    from balance_le_rsum [OF nat1 d1 a1] w s1 have "real_of_int w + real_of_int j \<le> rsum b"
      by simp
    with le assms(2) have w53: "real_of_int w + real_of_int j \<le> 2 ^ 53" by simp
    have na: "num_add (balance a1) (Fin (of_int j)) = Fin (of_int (w + j))"
      using add_exact [OF w(1) j0 w53] by (simp add: w(2))
    have r: "rsum b' = rsum b"
      using rsum_modify [OF d1 a1] w na s1 by (simp add: b')
    show ?thesis
    proof (rule exact_bankI)
      show "distinct (map fst (accounts b'))" using d1 by (simp add: b')
      show "natural (balance a)" if "map_of (accounts b') k = Some a" for k a
      proof (cases "k = recipient")
        case True
        with that a1 na have "balance a = Fin (of_int (w + j))" by (auto simp: b')
        with w(1) j0 show ?thesis unfolding natural_def by (intro exI [of _ "w + j"]) simp
      next
        case False
        with that have "map_of (accounts b1) k = Some a" by (simp add: b')
        with nat1 show ?thesis by blast
      qed
      show "totalBalance b' = Fin (rsum b')" using t r by (simp add: b' b1_def)
      show "rsum b' \<le> B" using r le by simp
    qed
  qed
qed

lemma exact_bank_createAccount:
  assumes "exact_bank B b" and "B + max 0 (real_of_int j) \<le> 2 ^ 53"
    and "createAccount nm (Fin (of_int j)) b = (res, b')"
  shows "exact_bank (B + max 0 (real_of_int j)) b'"
proof (cases "0 < j \<and> \<not> map_has (accounts b) nm \<and> length nm \<noteq> 0")
  case False
  with assms(3) have "b' = b"
    by (auto simp: createAccount_def AccountImpl_def validateAmount_def split: if_splits)
  with assms(1) show ?thesis by (auto intro: exact_bank_mono)
next
  case True
  note d = exact_bankD(1) [OF assms(1)] and t = exact_bankD(2) [OF assms(1)]
    and le = exact_bankD(3) [OF assms(1)] and nat = exact_bankD(4) [OF assms(1)]
  from True have fresh: "nm \<notin> fst ` set (accounts b)" by (simp add: map_has_def)
  from True assms(3)
  have b': "b' = b\<lparr>accounts := accounts b @ [(nm, \<lparr>name = trim nm, balance = Fin (of_int j)\<rparr>)],
      totalBalance := num_add (totalBalance b) (Fin (of_int j))\<rparr>"
    by (auto simp: createAccount_def AccountImpl_def validateAmount_def map_set_def
        update_fresh [OF fresh])
  from rsum_integer [OF nat d] obtain T :: int where T: "0 \<le> T" "rsum b = of_int T"
    by blast
  from True have j0: "0 \<le> j" by simp
  from True assms(2) le have bound: "rsum b + real_of_int j \<le> 2 ^ 53" by simp
  have nt: "num_add (totalBalance b) (Fin (of_int j)) = Fin (rsum b + of_int j)"
    using add_exact [OF T(1) j0] bound by (simp add: t T(2))
  have r: "rsum b' = rsum b + of_int j" by (simp add: b' rsum_def balances_def)
  show ?thesis
  proof (rule exact_bankI)
    show "distinct (map fst (accounts b'))" using d fresh by (simp add: b')
    show "natural (balance a)" if "map_of (accounts b') k = Some a" for k a
    proof (cases "map_of (accounts b) k")
      case None
      with that have "balance a = Fin (of_int j)"
        by (auto simp: b' map_add_def split: if_splits)
      with j0 show ?thesis unfolding natural_def by blast
    next
      case (Some a')
      with that have "map_of (accounts b) k = Some a" by (simp add: b' map_add_def)
      with nat show ?thesis by blast
    qed
    show "totalBalance b' = Fin (rsum b')" using nt r by (simp add: b')
    show "rsum b' \<le> B + max 0 (real_of_int j)" using r le True by simp
  qed
qed


section \<open>Invariants of every run\<close>

lemma credit_nonneg: "0 \<le> credit c"
  by (cases c) simp_all

lemma credit_sum_nonneg: "0 \<le> sum_list (map credit cs)"
  by (induction cs) (simp_all add: credit_nonneg)

lemma credit_sum_take: "sum_list (map credit (take n cs)) \<le> sum_list (map credit cs)"
proof -
  have "sum_list (map credit cs) =
      sum_list (map credit (take n cs)) + sum_list (map credit (drop n cs))"
    by (metis append_take_drop_id map_append sum_list_append)
  with credit_sum_nonneg [of "drop n cs"] show ?thesis by simp
qed

lemma exact_bank_perform:
  assumes "exact_bank B b" and "is_integer (amount_of c)" and "B + credit c \<le> 2 ^ 53"
    and "perform c b = Some (res, b')"
  shows "exact_bank (B + credit c) b'"
proof -
  from assms(2) obtain j :: int where j: "amount_of c = Fin (of_int j)" by (rule is_integerD)
  show ?thesis
  proof (cases c)
    case (CreateAccount nm bal)
    with j assms(4) obtain r where "createAccount nm (Fin (of_int j)) b = (r, b')"
      by (cases "createAccount nm (Fin (of_int j)) b") auto
    with assms(1,3) CreateAccount j show ?thesis
      by (auto intro: exact_bank_createAccount)
  next
    case (Deposit this amount)
    with assms j show ?thesis by (auto intro: exact_bank_deposit)
  next
    case (Withdraw this amount)
    with assms j show ?thesis by (auto intro: exact_bank_withdraw)
  next
    case (Transfer this recipient amount)
    with assms j show ?thesis by (auto intro: exact_bank_transfer)
  qed
qed

lemma exact_bank_run:
  "exact_bank B b \<Longrightarrow> list_all (\<lambda>c. is_integer (amount_of c)) cs \<Longrightarrow>
   B + sum_list (map credit cs) \<le> 2 ^ 53 \<Longrightarrow> run cs b = Some b' \<Longrightarrow>
   exact_bank (B + sum_list (map credit cs)) b'"
proof (induction cs arbitrary: B b)
  case Nil
  then show ?case by simp
next
  case (Cons c cs)
  from Cons.prems(4) obtain res b1 where p: "perform c b = Some (res, b1)"
    and r: "run cs b1 = Some b'"
    by (auto simp: exec_def split: option.splits)
  from Cons.prems(3) credit_sum_nonneg [of cs] have "B + credit c \<le> 2 ^ 53" by simp
  with Cons.prems(1,2) p have "exact_bank (B + credit c) b1"
    by (auto intro: exact_bank_perform)
  moreover from Cons.prems(2) have "list_all (\<lambda>c. is_integer (amount_of c)) cs" by simp
  moreover from Cons.prems(3) have "B + credit c + sum_list (map credit cs) \<le> 2 ^ 53"
    by simp
  ultimately have "exact_bank (B + credit c + sum_list (map credit cs)) b'"
    using r by (rule Cons.IH)
  then show ?case by (simp add: add.assoc)
qed

lemma num_sum_exact:
  "\<forall>x\<in>set xs. natural x \<Longrightarrow> sum_list (map real_of xs) \<le> 2 ^ 53 \<Longrightarrow>
   num_sum xs = Fin (sum_list (map real_of xs))"
proof (induction xs)
  case Nil
  then show ?case by simp
next
  case (Cons x xs)
  from Cons.prems(1) obtain m :: int where m: "0 \<le> m" "x = Fin (of_int m)"
    by (auto elim: naturalD)
  have "\<exists>n::int. 0 \<le> n \<and> sum_list (map real_of ys) = of_int n" if "\<forall>y\<in>set ys. natural y" for ys
    using that
  proof (induction ys)
    case Nil
    show ?case by (intro exI [of _ 0]) simp
  next
    case (Cons y ys)
    then obtain n :: int where n: "0 \<le> n" "sum_list (map real_of ys) = of_int n" by auto
    from Cons.prems obtain k :: int where k: "0 \<le> k" "y = Fin (of_int k)"
      by (auto elim: naturalD)
    from n k show ?case by (intro exI [of _ "k + n"]) simp
  qed
  with Cons.prems(1) obtain n :: int where n: "0 \<le> n" "sum_list (map real_of xs) = of_int n"
    by auto
  from Cons.prems(2) m n have b: "real_of_int m + real_of_int n \<le> 2 ^ 53" by simp
  with m(1) have "sum_list (map real_of xs) \<le> 2 ^ 53" using n by simp
  with Cons have "num_sum xs = Fin (of_int n)" using n by simp
  with add_exact [OF m(1) n(1) b] show ?case by (simp add: m n)
qed

lemma finite_take:
  "list_all P cs \<Longrightarrow> list_all P (take n cs)"
  by (auto simp: list_all_iff dest: in_set_takeD)

text \<open>Unfolding the definitions of the model, to run it on concrete calls.\<close>

lemmas model_defs =
  createAccount_def AccountImpl_def validateAmount_def map_has_def map_get_def map_set_def
  deposit_def withdraw_def transfer_def getAccountByName_def receiveTransfer_def modify_def
  bank_deposit_def bank_withdraw_def exec_def returns_def num_sub_def createBank_def
  checkBalance_def getTotalBalance_def balances_def trim_def is_ws_def

text \<open>
  C1 (for integer amounts of bounded sum). Start from a new bank and make any calls of
  \<open>createAccount\<close>, \<open>deposit\<close>, \<open>withdraw\<close> and \<open>transfer\<close> whose amounts are integers,
  whether the calls return or throw, such that the positive amounts of the \<open>createAccount\<close>
  and \<open>deposit\<close> calls add up to at most \<open>2^53\<close>. After every prefix of the calls, that is
  at every point between two calls, the total balance of the bank is the sum of the
  balances of its accounts, both as the source would add them up and as the exact sum.
\<close>

theorem totalBalance_is_sum_of_balances:
  assumes "list_all (\<lambda>c. is_integer (amount_of c)) cs"
    and "sum_list (map credit cs) \<le> 2 ^ 53"
    and "run (take n cs) createBank = Some b"
  shows "getTotalBalance b = num_sum (balances b) \<and>
         getTotalBalance b = Fin (sum_list (map real_of (balances b)))"
proof -
  from assms(1) have i: "list_all (\<lambda>c. is_integer (amount_of c)) (take n cs)"
    by (rule finite_take)
  from assms(2) credit_sum_take [of n cs]
  have c: "0 + sum_list (map credit (take n cs)) \<le> 2 ^ 53" by simp
  from exact_bank_createBank i c assms(3)
  have e: "exact_bank (0 + sum_list (map credit (take n cs))) b" by (rule exact_bank_run)
  note d = exact_bankD(1) [OF e] and t = exact_bankD(2) [OF e]
    and le = exact_bankD(3) [OF e] and nat = exact_bankD(4) [OF e]
  have "natural (balance a)" if "(k, a) \<in> set (accounts b)" for k a
  proof -
    from that d have "map_of (accounts b) k = Some a" by simp
    with nat show ?thesis by blast
  qed
  then have "\<forall>x\<in>set (balances b). natural x" by (auto simp: balances_def)
  moreover from le c have "sum_list (map real_of (balances b)) \<le> 2 ^ 53"
    by (simp add: rsum_def)
  ultimately have "num_sum (balances b) = Fin (rsum b)"
    unfolding rsum_def by (rule num_sum_exact)
  with t show ?thesis by (simp add: getTotalBalance_def rsum_def)
qed

lemma scenario_A_run:
  "run (take 4 scenario_A) createBank =
     Some \<lparr>accounts = [(''Erin'', \<lparr>name = ''Erin'', balance = Fin 55\<rparr>),
                        (''Paul'', \<lparr>name = ''Paul'', balance = Fin 45\<rparr>)],
           totalBalance = Fin 100\<rparr>"
  by (simp add: scenario_A_def model_defs)

theorem totalBalance_is_sum_of_balances_witness:
  "list_all (\<lambda>c. is_integer (amount_of c)) scenario_A \<and>
   sum_list (map credit scenario_A) \<le> 2 ^ 53 \<and>
   run (take 4 scenario_A) createBank =
     Some \<lparr>accounts = [(''Erin'', \<lparr>name = ''Erin'', balance = Fin 55\<rparr>),
                        (''Paul'', \<lparr>name = ''Paul'', balance = Fin 45\<rparr>)],
           totalBalance = Fin 100\<rparr> \<and>
   getTotalBalance \<lparr>accounts = [(''Erin'', \<lparr>name = ''Erin'', balance = Fin 55\<rparr>),
                        (''Paul'', \<lparr>name = ''Paul'', balance = Fin 45\<rparr>)],
           totalBalance = Fin 100\<rparr> =
   num_sum (balances \<lparr>accounts = [(''Erin'', \<lparr>name = ''Erin'', balance = Fin 55\<rparr>),
                        (''Paul'', \<lparr>name = ''Paul'', balance = Fin 45\<rparr>)],
           totalBalance = Fin 100\<rparr>)"
proof -
  have i: "list_all (\<lambda>c. is_integer (amount_of c)) scenario_A"
    by (simp add: scenario_A_def)
  have c: "sum_list (map credit scenario_A) \<le> 2 ^ 53"
    by (simp add: scenario_A_def)
  from i c scenario_A_run totalBalance_is_sum_of_balances [OF i c scenario_A_run]
  show ?thesis by blast
qed

text \<open>
  C1 fails in three ways, each time with calls that all return. With integer amounts
  beyond the bound: accounts with \<open>2^53\<close>, 1 and 1 are created, the total stays at \<open>2^53\<close>
  because \<open>2^53 + 1\<close> rounds to \<open>2^53\<close>, and after the withdrawal of \<open>2^53\<close> the total is 0
  while the balances add up to 2. With amounts that are not integers: accounts with
  \<open>0.1\<close>, \<open>0.2\<close> and \<open>0.3\<close> are created and emptied again, and the total is left at
  \<open>2^-53\<close> while every balance is 0. With an amount that is not finite: after the
  transfer of \<open>Infinity\<close> the total is \<open>Infinity\<close> while the balances are \<open>NaN\<close> and
  \<open>Infinity\<close>, whose sum is \<open>NaN\<close>.
\<close>

theorem totalBalance_counterexample:
  "all_return [CreateAccount ''A'' (Fin two_53), CreateAccount ''B'' (Fin 1),
               CreateAccount ''C'' (Fin 1), Withdraw ''A'' (Fin two_53)] createBank \<and>
   run [CreateAccount ''A'' (Fin two_53), CreateAccount ''B'' (Fin 1),
        CreateAccount ''C'' (Fin 1), Withdraw ''A'' (Fin two_53)] createBank =
     Some \<lparr>accounts = [(''A'', \<lparr>name = ''A'', balance = Fin 0\<rparr>),
                        (''B'', \<lparr>name = ''B'', balance = Fin 1\<rparr>),
                        (''C'', \<lparr>name = ''C'', balance = Fin 1\<rparr>)],
           totalBalance = Fin 0\<rparr> \<and>
   num_sum (balances \<lparr>accounts = [(''A'', \<lparr>name = ''A'', balance = Fin 0\<rparr>),
                        (''B'', \<lparr>name = ''B'', balance = Fin 1\<rparr>),
                        (''C'', \<lparr>name = ''C'', balance = Fin 1\<rparr>)],
           totalBalance = Fin 0\<rparr>) = Fin 2 \<and>
   all_return [CreateAccount ''A'' (Fin lit_0_1), CreateAccount ''B'' (Fin lit_0_2),
               CreateAccount ''C'' (Fin lit_0_3), Withdraw ''A'' (Fin lit_0_1),
               Withdraw ''B'' (Fin lit_0_2), Withdraw ''C'' (Fin lit_0_3)] createBank \<and>
   run [CreateAccount ''A'' (Fin lit_0_1), CreateAccount ''B'' (Fin lit_0_2),
        CreateAccount ''C'' (Fin lit_0_3), Withdraw ''A'' (Fin lit_0_1),
        Withdraw ''B'' (Fin lit_0_2), Withdraw ''C'' (Fin lit_0_3)] createBank =
     Some \<lparr>accounts = [(''A'', \<lparr>name = ''A'', balance = Fin 0\<rparr>),
                        (''B'', \<lparr>name = ''B'', balance = Fin 0\<rparr>),
                        (''C'', \<lparr>name = ''C'', balance = Fin 0\<rparr>)],
           totalBalance = Fin (1 / 2 ^ 53)\<rparr> \<and>
   num_sum (balances \<lparr>accounts = [(''A'', \<lparr>name = ''A'', balance = Fin 0\<rparr>),
                        (''B'', \<lparr>name = ''B'', balance = Fin 0\<rparr>),
                        (''C'', \<lparr>name = ''C'', balance = Fin 0\<rparr>)],
           totalBalance = Fin (1 / 2 ^ 53)\<rparr>) = Fin 0 \<and>
   all_return [CreateAccount ''A'' PosInf, CreateAccount ''B'' (Fin 5),
               Transfer ''A'' ''B'' PosInf] createBank \<and>
   run [CreateAccount ''A'' PosInf, CreateAccount ''B'' (Fin 5),
        Transfer ''A'' ''B'' PosInf] createBank =
     Some \<lparr>accounts = [(''A'', \<lparr>name = ''A'', balance = NaN\<rparr>),
                        (''B'', \<lparr>name = ''B'', balance = PosInf\<rparr>)],
           totalBalance = PosInf\<rparr> \<and>
   num_sum (balances \<lparr>accounts = [(''A'', \<lparr>name = ''A'', balance = NaN\<rparr>),
                        (''B'', \<lparr>name = ''B'', balance = PosInf\<rparr>)],
           totalBalance = PosInf\<rparr>) = NaN"
  by (simp add: model_defs two_53_def lit_0_1_def lit_0_2_def lit_0_3_def round64_defs)

section \<open>Balances are never negative\<close>

lemma num_add_nonneg:
  assumes "num_le (Fin 0) v" and "0 \<le> y"
  shows "num_le (Fin 0) (num_add v (Fin y))"
proof (cases v)
  case (Fin x)
  with assms have "0 \<le> x + y" by simp
  from round64_nonneg [OF this] Fin show ?thesis by auto
qed (use assms in simp_all)

lemma num_sub_nonneg:
  assumes "num_le (Fin 0) v" and "\<not> num_lt v (Fin y)"
  shows "num_le (Fin 0) (num_sub v (Fin y))"
proof (cases v)
  case (Fin x)
  with assms have "0 \<le> x + - y" by simp
  from round64_nonneg [OF this] Fin show ?thesis by (auto simp: num_sub_def)
qed (use assms in \<open>simp_all add: num_sub_def\<close>)

lemma nonneg_balances_createBank: "nonneg_balances createBank"
  by (simp add: nonneg_balances_def createBank_def)

lemma nonneg_balances_modify:
  assumes "nonneg_balances b"
    and "\<And>a. map_of (accounts b) r = Some a \<Longrightarrow> num_le (Fin 0) (balance (f a))"
  shows "nonneg_balances (modify r f b)"
  using assms by (auto simp: nonneg_balances_def)

lemma nonneg_balances_total [simp]:
  "nonneg_balances (b\<lparr>totalBalance := t\<rparr>) = nonneg_balances b"
  by (simp add: nonneg_balances_def)

lemma nonneg_balancesD:
  "nonneg_balances b \<Longrightarrow> map_of (accounts b) k = Some a \<Longrightarrow> num_le (Fin 0) (balance a)"
  by (simp add: nonneg_balances_def)

lemma nonneg_balances_deposit:
  assumes "nonneg_balances b" and "deposit this (Fin y) b = Some (res, b')"
  shows "nonneg_balances b'"
proof (cases "0 < y")
  case False
  with assms(2) have "b' = b"
    by (auto simp: deposit_def validateAmount_def split: option.splits)
  with assms(1) show ?thesis by simp
next
  case True
  with assms(2) have b': "b' = bank_deposit (Fin y)
        (modify this (\<lambda>a. a\<lparr>balance := num_add (balance a) (Fin y)\<rparr>) b)"
    by (auto simp: deposit_def validateAmount_def split: option.splits)
  have "nonneg_balances (modify this (\<lambda>a. a\<lparr>balance := num_add (balance a) (Fin y)\<rparr>) b)"
    using assms(1)
  proof (rule nonneg_balances_modify)
    fix a assume "map_of (accounts b) this = Some a"
    with assms(1) have "num_le (Fin 0) (balance a)" by (rule nonneg_balancesD)
    with True show "num_le (Fin 0) (balance (a\<lparr>balance := num_add (balance a) (Fin y)\<rparr>))"
      by (simp add: num_add_nonneg)
  qed
  then show ?thesis by (simp add: b' bank_deposit_def)
qed

lemma nonneg_balances_withdraw:
  assumes "nonneg_balances b" and "withdraw this (Fin y) b = Some (res, b')"
  shows "nonneg_balances b'"
proof -
  from assms(2) obtain self where self: "map_of (accounts b) this = Some self"
    by (auto simp: withdraw_def map_get_def split: option.splits)
  show ?thesis
  proof (cases "0 < y \<and> \<not> num_lt (balance self) (Fin y)")
    case False
    with assms(2) self have "b' = b"
      by (auto simp: withdraw_def map_get_def validateAmount_def split: if_splits)
    with assms(1) show ?thesis by simp
  next
    case True
    with assms(2) self have b': "b' = bank_withdraw (Fin y)
        (modify this (\<lambda>a. a\<lparr>balance := num_sub (balance a) (Fin y)\<rparr>) b)"
      by (auto simp: withdraw_def map_get_def validateAmount_def)
    have "nonneg_balances (modify this (\<lambda>a. a\<lparr>balance := num_sub (balance a) (Fin y)\<rparr>) b)"
      using assms(1)
    proof (rule nonneg_balances_modify)
      fix a assume "map_of (accounts b) this = Some a"
      with self have "a = self" by simp
      moreover from assms(1) self have "num_le (Fin 0) (balance self)" by (rule nonneg_balancesD)
      ultimately show "num_le (Fin 0) (balance (a\<lparr>balance := num_sub (balance a) (Fin y)\<rparr>))"
        using True by (simp add: num_sub_nonneg)
    qed
    then show ?thesis by (simp add: b' bank_withdraw_def)
  qed
qed

lemma nonneg_balances_transfer:
  assumes "nonneg_balances b" and "transfer this recipient (Fin y) b = Some (res, b')"
  shows "nonneg_balances b'"
proof -
  from assms(2) obtain self where self: "map_of (accounts b) this = Some self"
    by (auto simp: transfer_def map_get_def split: option.splits)
  show ?thesis
  proof (cases "0 < y \<and> \<not> num_lt (balance self) (Fin y) \<and> name self \<noteq> recipient \<and>
      map_of (accounts b) recipient \<noteq> None")
    case False
    with assms(2) self have "b' = b"
      by (auto simp: transfer_def map_get_def validateAmount_def getAccountByName_def
          split: option.splits if_splits)
    with assms(1) show ?thesis by simp
  next
    case True
    define b1 where "b1 = modify this (\<lambda>a. a\<lparr>balance := num_sub (balance a) (Fin y)\<rparr>) b"
    from True assms(2) self
    have b': "b' = modify recipient (\<lambda>a. a\<lparr>balance := num_add (balance a) (Fin y)\<rparr>) b1"
      by (auto simp: transfer_def map_get_def validateAmount_def getAccountByName_def
          receiveTransfer_def b1_def)
    have n1: "nonneg_balances b1"
      unfolding b1_def using assms(1)
    proof (rule nonneg_balances_modify)
      fix a assume "map_of (accounts b) this = Some a"
      with self have "a = self" by simp
      moreover from assms(1) self have "num_le (Fin 0) (balance self)" by (rule nonneg_balancesD)
      ultimately show "num_le (Fin 0) (balance (a\<lparr>balance := num_sub (balance a) (Fin y)\<rparr>))"
        using True by (simp add: num_sub_nonneg)
    qed
    show ?thesis
      unfolding b' using n1
    proof (rule nonneg_balances_modify)
      fix a assume "map_of (accounts b1) recipient = Some a"
      with n1 have "num_le (Fin 0) (balance a)" by (rule nonneg_balancesD)
      with True show "num_le (Fin 0) (balance (a\<lparr>balance := num_add (balance a) (Fin y)\<rparr>))"
        by (simp add: num_add_nonneg)
    qed
  qed
qed

lemma nonneg_balances_createAccount:
  assumes "nonneg_balances b" and "createAccount nm (Fin y) b = (res, b')"
  shows "nonneg_balances b'"
proof (cases "0 < y \<and> \<not> map_has (accounts b) nm \<and> length nm \<noteq> 0")
  case False
  with assms(2) have "b' = b"
    by (auto simp: createAccount_def AccountImpl_def validateAmount_def split: if_splits)
  with assms(1) show ?thesis by simp
next
  case True
  with assms(2)
  have b': "b' = b\<lparr>accounts := AList.update nm \<lparr>name = trim nm, balance = Fin y\<rparr> (accounts b),
      totalBalance := num_add (totalBalance b) (Fin y)\<rparr>"
    by (auto simp: createAccount_def AccountImpl_def validateAmount_def map_set_def)
  from assms(1) True show ?thesis
    by (auto simp: b' nonneg_balances_def update_conv' split: if_splits)
qed

lemma nonneg_balances_perform:
  assumes "nonneg_balances b" and "is_finite (amount_of c)" and "perform c b = Some (res, b')"
  shows "nonneg_balances b'"
proof -
  from assms(2) obtain y where y: "amount_of c = Fin y" by (cases "amount_of c") auto
  show ?thesis
  proof (cases c)
    case (CreateAccount nm bal)
    with y assms(3) obtain r where "createAccount nm (Fin y) b = (r, b')"
      by (cases "createAccount nm (Fin y) b") auto
    with assms(1) show ?thesis by (rule nonneg_balances_createAccount)
  next
    case (Deposit this amount)
    with assms y show ?thesis by (auto intro: nonneg_balances_deposit)
  next
    case (Withdraw this amount)
    with assms y show ?thesis by (auto intro: nonneg_balances_withdraw)
  next
    case (Transfer this recipient amount)
    with assms y show ?thesis by (auto intro: nonneg_balances_transfer)
  qed
qed

lemma nonneg_balances_run:
  "nonneg_balances b \<Longrightarrow> list_all (\<lambda>c. is_finite (amount_of c)) cs \<Longrightarrow> run cs b = Some b' \<Longrightarrow>
   nonneg_balances b'"
proof (induction cs arbitrary: b)
  case Nil
  then show ?case by simp
next
  case (Cons c cs)
  from Cons.prems(3) obtain res b1 where p: "perform c b = Some (res, b1)"
    and r: "run cs b1 = Some b'"
    by (auto simp: exec_def split: option.splits)
  from Cons.prems(1,2) p have "nonneg_balances b1" by (auto intro: nonneg_balances_perform)
  with Cons.IH [of b1] Cons.prems(2) r show ?case by simp
qed

text \<open>
  C2 (for finite amounts). Start from a new bank and make any calls whose amounts are
  finite numbers, whether they return or throw. After every prefix of the calls, that is
  before and after each call, \<open>checkBalance\<close> of every account is \<open>>= 0\<close> (a balance can
  grow to \<open>Infinity\<close>, which is \<open>>= 0\<close>).
\<close>

theorem balance_never_negative:
  assumes "list_all (\<lambda>c. is_finite (amount_of c)) cs"
    and "run (take n cs) createBank = Some b"
    and "checkBalance this b = Some v"
  shows "num_le (Fin 0) v"
proof -
  from assms(1) have "list_all (\<lambda>c. is_finite (amount_of c)) (take n cs)"
    by (rule finite_take)
  with nonneg_balances_createBank have "nonneg_balances b"
    using assms(2) by (rule nonneg_balances_run)
  moreover from assms(3) obtain a where "map_of (accounts b) this = Some a" and "v = balance a"
    by (auto simp: checkBalance_def map_get_def)
  ultimately show ?thesis by (simp add: nonneg_balancesD)
qed

lemma scenario_A_final:
  "run (take 5 scenario_A) createBank =
     Some \<lparr>accounts = [(''Erin'', \<lparr>name = ''Erin'', balance = Fin 55\<rparr>),
                        (''Paul'', \<lparr>name = ''Paul'', balance = Fin 15\<rparr>)],
           totalBalance = Fin 70\<rparr>"
  by (simp add: scenario_A_def model_defs)

theorem balance_never_negative_witness:
  "list_all (\<lambda>c. is_finite (amount_of c)) scenario_A \<and>
   run (take 5 scenario_A) createBank =
     Some \<lparr>accounts = [(''Erin'', \<lparr>name = ''Erin'', balance = Fin 55\<rparr>),
                        (''Paul'', \<lparr>name = ''Paul'', balance = Fin 15\<rparr>)],
           totalBalance = Fin 70\<rparr> \<and>
   checkBalance ''Paul''
     \<lparr>accounts = [(''Erin'', \<lparr>name = ''Erin'', balance = Fin 55\<rparr>),
                  (''Paul'', \<lparr>name = ''Paul'', balance = Fin 15\<rparr>)],
      totalBalance = Fin 70\<rparr> = Some (Fin 15) \<and>
   num_le (Fin 0) (Fin 15)"
proof -
  have f: "list_all (\<lambda>c. is_finite (amount_of c)) scenario_A"
    by (simp add: scenario_A_def)
  have c: "checkBalance ''Paul''
     \<lparr>accounts = [(''Erin'', \<lparr>name = ''Erin'', balance = Fin 55\<rparr>),
                  (''Paul'', \<lparr>name = ''Paul'', balance = Fin 15\<rparr>)],
      totalBalance = Fin 70\<rparr> = Some (Fin 15)"
    by (simp add: checkBalance_def map_get_def)
  from f scenario_A_final c balance_never_negative [OF f scenario_A_final c]
  show ?thesis by blast
qed

text \<open>
  C2 fails when an amount is \<open>Infinity\<close>: after a deposit of \<open>Infinity\<close> a withdrawal of
  \<open>Infinity\<close> passes both checks and leaves the balance \<open>NaN\<close>, which is not \<open>>= 0\<close>.
\<close>

theorem balance_infinite_counterexample:
  "run [CreateAccount ''Erin'' (Fin 50), Deposit ''Erin'' PosInf, Withdraw ''Erin'' PosInf] createBank =
     Some \<lparr>accounts = [(''Erin'', \<lparr>name = ''Erin'', balance = NaN\<rparr>)], totalBalance = NaN\<rparr> \<and>
   checkBalance ''Erin'' \<lparr>accounts = [(''Erin'', \<lparr>name = ''Erin'', balance = NaN\<rparr>)], totalBalance = NaN\<rparr>
     = Some NaN \<and>
   \<not> num_le (Fin 0) NaN"
  by (simp add: model_defs)

section \<open>Stored names\<close>

lemma last_dropWhile_nonempty:
  "dropWhile P xs \<noteq> [] \<Longrightarrow> last (dropWhile P xs) = last xs"
  by (metis takeWhile_dropWhile_id last_appendR)

lemma dropWhile_hd_id: "xs \<noteq> [] \<Longrightarrow> \<not> P (hd xs) \<Longrightarrow> dropWhile P xs = xs"
  by (cases xs) auto

lemma trim_idem: "trim (trim s) = trim s"
proof -
  define t where "t = dropWhile is_ws s"
  define u where "u = dropWhile is_ws (rev t)"
  have ts: "trim s = rev u" by (simp add: trim_def t_def u_def)
  show ?thesis
  proof (cases "u = []")
    case True
    with ts have "trim s = []" by simp
    moreover have "trim [] = []" by (simp add: trim_def)
    ultimately show ?thesis by simp
  next
    case False
    then have hu: "\<not> is_ws (hd u)" unfolding u_def by (rule hd_dropWhile)
    from False have t: "t \<noteq> []" by (auto simp: u_def)
    then have "\<not> is_ws (hd t)" unfolding t_def by (rule hd_dropWhile)
    moreover from False have "last u = last (rev t)" unfolding u_def by (rule last_dropWhile_nonempty)
    ultimately have lu: "\<not> is_ws (last u)" using t by (simp add: last_rev)
    from False lu have a: "dropWhile is_ws (rev u) = rev u"
      by (intro dropWhile_hd_id) (simp_all add: hd_rev)
    from False hu have c: "dropWhile is_ws u = u" by (rule dropWhile_hd_id)
    have "trim (rev u) = rev (dropWhile is_ws (rev (dropWhile is_ws (rev u))))"
      by (simp only: trim_def)
    also have "\<dots> = rev (dropWhile is_ws u)" by (simp only: a rev_rev_ident)
    also have "\<dots> = rev u" by (simp only: c)
    finally show ?thesis by (simp only: ts)
  qed
qed

lemma names_trimmed_createBank: "names_trimmed createBank"
  by (simp add: names_trimmed_def createBank_def)

lemma names_trimmed_modify:
  "names_trimmed b \<Longrightarrow> (\<And>a. name (f a) = name a) \<Longrightarrow> names_trimmed (modify r f b)"
  by (auto simp: names_trimmed_def)

lemma names_trimmed_total:
  "names_trimmed (b\<lparr>totalBalance := t\<rparr>) = names_trimmed b"
  by (simp add: names_trimmed_def)

lemma names_trimmed_perform:
  assumes "names_trimmed b" and "perform c b = Some (res, b')"
  shows "names_trimmed b'"
proof (cases c)
  case (CreateAccount nm bal)
  with assms show ?thesis
    by (auto simp: createAccount_def AccountImpl_def map_set_def names_trimmed_def update_conv'
        split: sum.splits if_splits)
next
  case (Deposit this amount)
  with assms show ?thesis
    by (auto simp: deposit_def bank_deposit_def names_trimmed_total
        intro!: names_trimmed_modify split: option.splits sum.splits)
next
  case (Withdraw this amount)
  with assms show ?thesis
    by (auto simp: withdraw_def bank_withdraw_def names_trimmed_total
        intro!: names_trimmed_modify split: option.splits sum.splits if_splits)
next
  case (Transfer this recipient amount)
  with assms show ?thesis
    by (auto simp: transfer_def receiveTransfer_def
        intro!: names_trimmed_modify split: option.splits sum.splits if_splits)
qed

lemma names_trimmed_run:
  "names_trimmed b \<Longrightarrow> run cs b = Some b' \<Longrightarrow> names_trimmed b'"
proof (induction cs arbitrary: b)
  case Nil
  then show ?case by simp
next
  case (Cons c cs)
  from Cons.prems(2) obtain res b1 where p: "perform c b = Some (res, b1)" and r: "run cs b1 = Some b'"
    by (auto simp: exec_def split: option.splits)
  from Cons.prems(1) p have "names_trimmed b1" by (rule names_trimmed_perform)
  then show ?case using r by (rule Cons.IH)
qed

section \<open>Concrete banks\<close>

lemma bank_Erin_run: "run [CreateAccount ''Erin'' (Fin 50)] createBank = Some bank_Erin"
  by (simp add: bank_Erin_def model_defs)

lemma bank_Erin_Paul_run:
  "run [CreateAccount ''Erin'' (Fin 50), CreateAccount ''Paul'' (Fin 20)] createBank =
     Some bank_Erin_Paul"
  by (simp add: bank_Erin_Paul_def model_defs)


lemma bank_padded_Erin_run:
  "run [CreateAccount '' Erin '' (Fin 50), CreateAccount ''Erin'' (Fin 20)] createBank =
     Some bank_padded_Erin"
  by (simp add: bank_padded_Erin_def model_defs)

lemma bank_three_run:
  "run [CreateAccount ''Erin'' (Fin 50), CreateAccount '' Erin '' (Fin 20),
        CreateAccount ''Paul'' (Fin 30)] createBank = Some bank_three"
  by (simp add: bank_three_def model_defs)

section \<open>Transfers and withdrawals\<close>



text \<open>
  The recipient is compared as given: a transfer of \<open>Erin\<close> addressed to \<open>" Erin "\<close> is
  not recognised as a transfer to itself, and the recipient is looked up.
\<close>

lemma transfer_padded_own_name:
  "transfer ''Erin'' '' Erin '' (Fin 20) bank_Erin = Some (Inl MissingAccountError, bank_Erin)"
  by (simp add: bank_Erin_def model_defs)

lemma checkBalance_modify:
  "map_get (accounts b) this = Some self \<Longrightarrow>
   checkBalance this (modify this f b) = Some (balance (f self))"
  by (simp add: checkBalance_def map_get_def)

lemma checkBalance_modify_other:
  "k \<noteq> r \<Longrightarrow> checkBalance k (modify r f b) = checkBalance k b"
  by (simp add: checkBalance_def map_get_def)

lemma checkBalance_total [simp]:
  "checkBalance k (b\<lparr>totalBalance := t\<rparr>) = checkBalance k b"
  by (simp add: checkBalance_def)

text \<open>
  C6 (as the source has it). Let an account have the balance \<open>b\<close> and let \<open>a\<close> be a
  positive finite amount. A withdrawal of \<open>a = b\<close> returns and leaves the balance \<open>0\<close>; a
  withdrawal of \<open>a > b\<close> throws \<open>InsufficientBalanceError\<close> and changes nothing. A transfer of
  \<open>a > b\<close> throws \<open>InsufficientBalanceError\<close> and changes nothing, whoever the recipient is;
  a transfer of \<open>a = b\<close> returns and leaves the balance of the sender \<open>0\<close> when the
  recipient is not the name the sender stores and is the key of another account.
\<close>

theorem withdraw_transfer_boundary:
  assumes "map_get (accounts b) this = Some self" and "0 < y"
  shows "(balance self = Fin y \<longrightarrow>
            (\<exists>b'. withdraw this (Fin y) b = Some (Inr (), b') \<and>
                  checkBalance this b' = Some (Fin 0))) \<and>
         (num_lt (balance self) (Fin y) \<longrightarrow>
            withdraw this (Fin y) b = Some (Inl InsufficientBalanceError, b)) \<and>
         (balance self = Fin y \<and> recipient \<noteq> name self \<and> recipient \<noteq> this \<and>
          map_get (accounts b) recipient \<noteq> None \<longrightarrow>
            (\<exists>b'. transfer this recipient (Fin y) b = Some (Inr (), b') \<and>
                  checkBalance this b' = Some (Fin 0))) \<and>
         (num_lt (balance self) (Fin y) \<longrightarrow>
            transfer this recipient (Fin y) b = Some (Inl InsufficientBalanceError, b))"
proof -
  from assms(2) have v: "validateAmount (Fin y) = Inr ()"
    by (simp add: validateAmount_def)
  have w0: "withdraw this (Fin y) b = Some (Inr (), bank_withdraw (Fin y)
        (modify this (\<lambda>a. a\<lparr>balance := num_sub (balance a) (Fin y)\<rparr>) b))"
    if "balance self = Fin y"
    using assms(1) v that by (simp add: withdraw_def)
  have w1: "checkBalance this (bank_withdraw (Fin y)
        (modify this (\<lambda>a. a\<lparr>balance := num_sub (balance a) (Fin y)\<rparr>) b)) = Some (Fin 0)"
    if "balance self = Fin y"
    using checkBalance_modify [OF assms(1)] that
    by (simp add: bank_withdraw_def num_sub_def)
  have w2: "withdraw this (Fin y) b = Some (Inl InsufficientBalanceError, b)"
    if "num_lt (balance self) (Fin y)"
    using assms(1) v that by (simp add: withdraw_def)
  have t0: "transfer this recipient (Fin y) b = Some (Inr (), receiveTransfer recipient (Fin y)
        (modify this (\<lambda>a. a\<lparr>balance := num_sub (balance a) (Fin y)\<rparr>) b))"
    if "balance self = Fin y" "recipient \<noteq> name self" "map_get (accounts b) recipient \<noteq> None"
    using assms(1) v that by (auto simp: transfer_def getAccountByName_def)
  have t1: "checkBalance this (receiveTransfer recipient (Fin y)
        (modify this (\<lambda>a. a\<lparr>balance := num_sub (balance a) (Fin y)\<rparr>) b)) = Some (Fin 0)"
    if "balance self = Fin y" "recipient \<noteq> this"
    using checkBalance_modify [OF assms(1)] that
    by (simp add: receiveTransfer_def checkBalance_modify_other num_sub_def)
  have t2: "transfer this recipient (Fin y) b = Some (Inl InsufficientBalanceError, b)"
    if "num_lt (balance self) (Fin y)"
    using assms(1) v that by (simp add: transfer_def)
  from w0 w1 w2 t0 t1 t2 show ?thesis by blast
qed


theorem withdraw_transfer_boundary_witness:
  "map_get (accounts bank_Erin_Paul) ''Erin'' = Some \<lparr>name = ''Erin'', balance = Fin 50\<rparr> \<and>
   (\<exists>b'. withdraw ''Erin'' (Fin 50) bank_Erin_Paul = Some (Inr (), b') \<and>
         checkBalance ''Erin'' b' = Some (Fin 0)) \<and>
   withdraw ''Erin'' (Fin 70) bank_Erin_Paul = Some (Inl InsufficientBalanceError, bank_Erin_Paul) \<and>
   (\<exists>b'. transfer ''Erin'' ''Paul'' (Fin 50) bank_Erin_Paul = Some (Inr (), b') \<and>
         checkBalance ''Erin'' b' = Some (Fin 0)) \<and>
   transfer ''Erin'' ''Paul'' (Fin 70) bank_Erin_Paul =
     Some (Inl InsufficientBalanceError, bank_Erin_Paul)"
proof -
  have g: "map_get (accounts bank_Erin_Paul) ''Erin'' = Some \<lparr>name = ''Erin'', balance = Fin 50\<rparr>"
    by (simp add: bank_Erin_Paul_def map_get_def)
  have p: "map_get (accounts bank_Erin_Paul) ''Paul'' \<noteq> None"
    by (simp add: bank_Erin_Paul_def map_get_def)
  have "(0::real) < 50" and "(0::real) < 70" by simp_all
  from withdraw_transfer_boundary [OF g \<open>0 < 50\<close>, of "''Paul''"]
    withdraw_transfer_boundary [OF g \<open>0 < 70\<close>, of "''Paul''"] g p
  show ?thesis by simp
qed

text \<open>
  C6 fails for a transfer: addressed to the name of the sender, a transfer of the whole
  balance returns and leaves the balance at 50, not at 0.
\<close>

theorem transfer_boundary_self_counterexample:
  "run [CreateAccount ''Erin'' (Fin 50)] createBank = Some bank_Erin \<and>
   checkBalance ''Erin'' bank_Erin = Some (Fin 50) \<and>
   transfer ''Erin'' ''Erin'' (Fin 50) bank_Erin = Some (Inr (), bank_Erin) \<and>
   Fin 50 \<noteq> Fin 0"
  by (simp add: bank_Erin_def model_defs)


lemma transfer_success:
  assumes "map_get (accounts b) this = Some self"
    and "validateAmount amount = Inr ()"
    and "\<not> num_lt (balance self) amount"
    and "recipient \<noteq> name self"
    and "map_get (accounts b) recipient = Some racc"
  shows "transfer this recipient amount b =
     Some (Inr (), receiveTransfer recipient amount
        (modify this (\<lambda>a. a\<lparr>balance := num_sub (balance a) amount\<rparr>) b))"
  using assms by (auto simp: transfer_def getAccountByName_def)

lemma transfer_returns:
  assumes "map_get (accounts b) this = Some self"
    and "transfer this recipient amount b = Some (Inr (), b')"
    and "recipient \<noteq> name self"
  shows "\<exists>racc. map_get (accounts b) recipient = Some racc \<and>
     b' = receiveTransfer recipient amount
        (modify this (\<lambda>a. a\<lparr>balance := num_sub (balance a) amount\<rparr>) b)"
  using assms
  by (auto simp: transfer_def getAccountByName_def split: sum.splits if_splits option.splits)

lemma transfer_effect:
  assumes "map_get (accounts b) this = Some self"
    and "map_get (accounts b) recipient = Some racc"
    and "recipient \<noteq> this"
    and "b' = receiveTransfer recipient amount
        (modify this (\<lambda>a. a\<lparr>balance := num_sub (balance a) amount\<rparr>) b)"
  shows "checkBalance this b' = Some (num_sub (balance self) amount)"
    and "checkBalance recipient b' = Some (num_add (balance racc) amount)"
    and "getTotalBalance b' = getTotalBalance b"
    and "k \<noteq> this \<Longrightarrow> k \<noteq> recipient \<Longrightarrow> checkBalance k b' = checkBalance k b"
  using assms
  by (simp_all add: receiveTransfer_def checkBalance_def map_get_def getTotalBalance_def)

text \<open>
  C7 (as the source has it). For every account, every amount greater than \<open>0\<close> that does
  not exceed its balance and every recipient that is no key of the registry and is not
  the name the sender stores, \<open>transfer\<close> throws \<open>MissingAccountError\<close> and leaves the
  bank as it was: the balance of the sender, the registry and the total are unchanged.
\<close>

theorem transfer_missing_recipient:
  assumes "map_get (accounts b) this = Some self"
    and "num_lt (Fin 0) amount"
    and "num_le amount (balance self)"
    and "map_get (accounts b) recipient = None"
    and "recipient \<noteq> name self"
  shows "transfer this recipient amount b = Some (Inl MissingAccountError, b)"
  using assms
  by (simp add: transfer_def getAccountByName_def validateAmount_positive sufficient_not_less)

theorem transfer_missing_recipient_witness:
  "map_get (accounts bank_Erin) ''Erin'' = Some \<lparr>name = ''Erin'', balance = Fin 50\<rparr> \<and>
   num_lt (Fin 0) (Fin 20) \<and> num_le (Fin 20) (Fin 50) \<and>
   map_get (accounts bank_Erin) ''John Doe'' = None \<and> ''John Doe'' \<noteq> ''Erin'' \<and>
   transfer ''Erin'' ''John Doe'' (Fin 20) bank_Erin = Some (Inl MissingAccountError, bank_Erin)"
proof -
  have g: "map_get (accounts bank_Erin) ''Erin'' = Some \<lparr>name = ''Erin'', balance = Fin 50\<rparr>"
    by (simp add: bank_Erin_def map_get_def)
  have m: "map_get (accounts bank_Erin) ''John Doe'' = None"
    by (simp add: bank_Erin_def map_get_def)
  have "transfer ''Erin'' ''John Doe'' (Fin 20) bank_Erin = Some (Inl MissingAccountError, bank_Erin)"
    by (rule transfer_missing_recipient [OF g _ _ m]) simp_all
  with g m show ?thesis by simp
qed

text \<open>
  C7 fails when the recipient is the name the sender stores: the account created as
  \<open>" Erin "\<close> stores the name \<open>"Erin"\<close>, no account is registered under \<open>"Erin"\<close>, and its
  transfer to \<open>"Erin"\<close> returns without an error.
\<close>

theorem transfer_own_name_unregistered_counterexample:
  "run [CreateAccount '' Erin '' (Fin 50)] createBank = Some bank_padded \<and>
   map_get (accounts bank_padded) '' Erin '' = Some \<lparr>name = ''Erin'', balance = Fin 50\<rparr> \<and>
   map_get (accounts bank_padded) ''Erin'' = None \<and>
   transfer '' Erin '' ''Erin'' (Fin 20) bank_padded = Some (Inr (), bank_padded)"
  by (simp add: bank_padded_def model_defs)

text \<open>
  What a transfer that goes past the comparison of names does: when it returns, and the
  recipient is not the name the sender stores and is not the sender itself, the balance
  of the sender is decreased by the amount, the balance of the recipient is increased by
  the amount, and the total balance of the bank and the balance of every other account
  are unchanged.
\<close>

lemma transfer_moves_amount:
  assumes "map_get (accounts b) this = Some self"
    and "transfer this recipient amount b = Some (Inr (), b')"
    and "recipient \<noteq> name self"
    and "recipient \<noteq> this"
  shows "(\<exists>racc. map_get (accounts b) recipient = Some racc \<and>
            checkBalance recipient b' = Some (num_add (balance racc) amount)) \<and>
         checkBalance this b' = Some (num_sub (balance self) amount) \<and>
         getTotalBalance b' = getTotalBalance b \<and>
         (k \<noteq> this \<and> k \<noteq> recipient \<longrightarrow> checkBalance k b' = checkBalance k b)"
proof -
  from transfer_returns [OF assms(1-3)] obtain racc
    where r: "map_get (accounts b) recipient = Some racc"
      and b': "b' = receiveTransfer recipient amount
        (modify this (\<lambda>a. a\<lparr>balance := num_sub (balance a) amount\<rparr>) b)"
    by blast
  from transfer_effect [OF assms(1) r assms(4) b'] r show ?thesis by blast
qed

lemma transfer_moves_amount_example:
  "map_get (accounts bank_Erin_Paul) ''Erin'' = Some \<lparr>name = ''Erin'', balance = Fin 50\<rparr> \<and>
   transfer ''Erin'' ''Paul'' (Fin 10) bank_Erin_Paul =
     Some (Inr (),
       \<lparr>accounts = [(''Erin'', \<lparr>name = ''Erin'', balance = Fin 40\<rparr>),
                    (''Paul'', \<lparr>name = ''Paul'', balance = Fin 30\<rparr>)],
        totalBalance = Fin 70\<rparr>) \<and>
   ''Paul'' \<noteq> ''Erin'' \<and>
   (\<exists>racc. map_get (accounts bank_Erin_Paul) ''Paul'' = Some racc \<and>
      checkBalance ''Paul''
        \<lparr>accounts = [(''Erin'', \<lparr>name = ''Erin'', balance = Fin 40\<rparr>),
                     (''Paul'', \<lparr>name = ''Paul'', balance = Fin 30\<rparr>)],
         totalBalance = Fin 70\<rparr> = Some (num_add (balance racc) (Fin 10))) \<and>
   checkBalance ''Erin''
        \<lparr>accounts = [(''Erin'', \<lparr>name = ''Erin'', balance = Fin 40\<rparr>),
                     (''Paul'', \<lparr>name = ''Paul'', balance = Fin 30\<rparr>)],
         totalBalance = Fin 70\<rparr> = Some (num_sub (Fin 50) (Fin 10)) \<and>
   getTotalBalance
        \<lparr>accounts = [(''Erin'', \<lparr>name = ''Erin'', balance = Fin 40\<rparr>),
                     (''Paul'', \<lparr>name = ''Paul'', balance = Fin 30\<rparr>)],
         totalBalance = Fin 70\<rparr> = getTotalBalance bank_Erin_Paul"
proof -
  have g: "map_get (accounts bank_Erin_Paul) ''Erin'' = Some \<lparr>name = ''Erin'', balance = Fin 50\<rparr>"
    by (simp add: bank_Erin_Paul_def map_get_def)
  have t: "transfer ''Erin'' ''Paul'' (Fin 10) bank_Erin_Paul =
     Some (Inr (),
       \<lparr>accounts = [(''Erin'', \<lparr>name = ''Erin'', balance = Fin 40\<rparr>),
                    (''Paul'', \<lparr>name = ''Paul'', balance = Fin 30\<rparr>)],
        totalBalance = Fin 70\<rparr>)"
    by (simp add: bank_Erin_Paul_def model_defs)
  have n: "''Paul'' \<noteq> name \<lparr>name = ''Erin'', balance = Fin 50\<rparr>" "''Paul'' \<noteq> ''Erin''"
    by simp_all
  from transfer_moves_amount [OF g t n] g t show ?thesis by simp
qed

text \<open>
  When every account is registered under the name it stores, a transfer between two
  distinct accounts never meets the comparison of names, and moves the amount.
\<close>

lemma transfer_moves_amount_own_key:
  assumes "map_get (accounts b) this = Some self"
    and "name self = this"
    and "transfer this recipient amount b = Some (Inr (), b')"
    and "recipient \<noteq> this"
  shows "(\<exists>racc. map_get (accounts b) recipient = Some racc \<and>
            checkBalance recipient b' = Some (num_add (balance racc) amount)) \<and>
         checkBalance this b' = Some (num_sub (balance self) amount) \<and>
         getTotalBalance b' = getTotalBalance b"
  using transfer_moves_amount [OF assms(1,3) _ assms(4)] assms(2,4) by simp

text \<open>
  C9, on the source: the accounts created as \<open>" Erin "\<close> and as \<open>"Erin"\<close> are two distinct
  accounts of the bank, and both store the name \<open>"Erin"\<close>. The transfer of 10 from the
  first to the second returns, and moves nothing: both balances are what they were.
\<close>

theorem transfer_same_stored_name_dropped:
  "run [CreateAccount '' Erin '' (Fin 50), CreateAccount ''Erin'' (Fin 20)] createBank =
     Some bank_padded_Erin \<and>
   '' Erin '' \<noteq> ''Erin'' \<and>
   checkBalance '' Erin '' bank_padded_Erin = Some (Fin 50) \<and>
   checkBalance ''Erin'' bank_padded_Erin = Some (Fin 20) \<and>
   transfer '' Erin '' ''Erin'' (Fin 10) bank_padded_Erin = Some (Inr (), bank_padded_Erin)"
  by (simp add: bank_padded_Erin_def model_defs)


section \<open>Names and registry keys\<close>

lemma createAccount_returns:
  assumes "createAccount nm bal b = (Inr h, b')"
  shows "h = nm" and "validateAmount bal = Inr ()" and "\<not> map_has (accounts b) nm" and "nm \<noteq> []"
    and "b' = b\<lparr>accounts := map_set (accounts b) nm \<lparr>name = trim nm, balance = bal\<rparr>,
                 totalBalance := num_add (totalBalance b) bal\<rparr>"
  using assms
  by (auto simp: createAccount_def AccountImpl_def split: sum.splits if_splits)

lemma trim_padded: "trim nm \<noteq> nm \<Longrightarrow> trim k \<noteq> nm"
  using trim_idem [of k] by auto

text \<open>
  C10 (as the source has it). In a bank reached from a new one, let \<open>createAccount\<close>
  return for a name \<open>nm\<close> with surrounding white space. The registry then holds the new
  account under the key \<open>nm\<close> itself, and the account stores the trimmed name. For every
  other account and every amount greater than \<open>0\<close> that does not exceed its balance: a
  transfer addressed to the trimmed form of \<open>nm\<close> throws \<open>MissingAccountError\<close>, provided
  that no account is registered under the trimmed form and that it is not the name the
  sender stores; a transfer addressed to \<open>nm\<close> itself returns, credits the new account
  and debits the sender.
\<close>

theorem untrimmed_key_transfers:
  assumes "run cs createBank = Some b"
    and "createAccount nm bal b = (Inr h, b')"
    and "trim nm \<noteq> nm"
    and "map_get (accounts b') this = Some self"
    and "this \<noteq> nm"
    and "num_lt (Fin 0) amount"
    and "num_le amount (balance self)"
  shows "h = nm \<and>
         map_get (accounts b') nm = Some \<lparr>name = trim nm, balance = bal\<rparr> \<and>
         (map_get (accounts b') (trim nm) = None \<and> name self \<noteq> trim nm \<longrightarrow>
            transfer this (trim nm) amount b' = Some (Inl MissingAccountError, b')) \<and>
         (\<exists>b''. transfer this nm amount b' = Some (Inr (), b'') \<and>
                checkBalance nm b'' = Some (num_add bal amount) \<and>
                checkBalance this b'' = Some (num_sub (balance self) amount))"
proof -
  note c = createAccount_returns [OF assms(2)]
  have new: "map_get (accounts b') nm = Some \<lparr>name = trim nm, balance = bal\<rparr>"
    by (simp add: c(5) map_get_def map_set_def update_conv')
  from assms(4,5) have old: "map_get (accounts b) this = Some self"
    by (simp add: c(5) map_get_def map_set_def update_conv')
  from names_trimmed_createBank assms(1) have "names_trimmed b" by (rule names_trimmed_run)
  with old have "name self = trim this" by (simp add: names_trimmed_def map_get_def)
  with assms(3) have ne: "nm \<noteq> name self" using trim_padded [of nm this] by simp
  have v: "validateAmount amount = Inr ()" using assms(6) by (rule validateAmount_positive)
  have s: "\<not> num_lt (balance self) amount" using assms(7) by (rule sufficient_not_less)
  define b'' where "b'' = receiveTransfer nm amount
        (modify this (\<lambda>a. a\<lparr>balance := num_sub (balance a) amount\<rparr>) b')"
  have t: "transfer this nm amount b' = Some (Inr (), b'')"
    unfolding b''_def using assms(4) v s ne new by (rule transfer_success)
  have e: "checkBalance this b'' = Some (num_sub (balance self) amount)"
    "checkBalance nm b'' = Some (num_add (balance \<lparr>name = trim nm, balance = bal\<rparr>) amount)"
    using transfer_effect(1,2) [OF assms(4) new _ b''_def] assms(5) by auto
  have m: "transfer this (trim nm) amount b' = Some (Inl MissingAccountError, b')"
    if "map_get (accounts b') (trim nm) = None" "name self \<noteq> trim nm"
    using assms(4) v s that by (auto simp: transfer_def getAccountByName_def)
  from c(1) new m t e show ?thesis by auto
qed


lemma bank_Paul_run: "run [CreateAccount ''Paul'' (Fin 30)] createBank = Some bank_Paul"
  by (simp add: bank_Paul_def model_defs)

lemma bank_Paul_padded_create:
  "createAccount '' Erin '' (Fin 20) bank_Paul = (Inr '' Erin '', bank_Paul_padded)"
  by (simp add: bank_Paul_def bank_Paul_padded_def model_defs)

lemma trim_padded_Erin: "trim '' Erin '' = ''Erin''"
  by (simp add: model_defs)

theorem untrimmed_key_transfers_witness:
  "run [CreateAccount ''Paul'' (Fin 30)] createBank = Some bank_Paul \<and>
   createAccount '' Erin '' (Fin 20) bank_Paul = (Inr '' Erin '', bank_Paul_padded) \<and>
   trim '' Erin '' \<noteq> '' Erin '' \<and>
   map_get (accounts bank_Paul_padded) ''Paul'' = Some \<lparr>name = ''Paul'', balance = Fin 30\<rparr> \<and>
   num_lt (Fin 0) (Fin 10) \<and> num_le (Fin 10) (Fin 30) \<and>
   map_get (accounts bank_Paul_padded) '' Erin '' = Some \<lparr>name = ''Erin'', balance = Fin 20\<rparr> \<and>
   map_get (accounts bank_Paul_padded) ''Erin'' = None \<and>
   transfer ''Paul'' ''Erin'' (Fin 10) bank_Paul_padded =
     Some (Inl MissingAccountError, bank_Paul_padded) \<and>
   (\<exists>b''. transfer ''Paul'' '' Erin '' (Fin 10) bank_Paul_padded = Some (Inr (), b'') \<and>
          checkBalance '' Erin '' b'' = Some (Fin 30) \<and>
          checkBalance ''Paul'' b'' = Some (Fin 20))"
proof -
  have t: "trim '' Erin '' \<noteq> '' Erin ''" by (simp add: trim_padded_Erin)
  have g: "map_get (accounts bank_Paul_padded) ''Paul'' = Some \<lparr>name = ''Paul'', balance = Fin 30\<rparr>"
    by (simp add: bank_Paul_padded_def map_get_def)
  have n: "''Paul'' \<noteq> '' Erin ''" by simp
  have m: "map_get (accounts bank_Paul_padded) ''Erin'' = None"
    by (simp add: bank_Paul_padded_def map_get_def)
  have "num_lt (Fin 0) (Fin 10)" and "num_le (Fin 10) (balance \<lparr>name = ''Paul'', balance = Fin 30\<rparr>)"
    by simp_all
  from untrimmed_key_transfers [OF bank_Paul_run bank_Paul_padded_create t g n this]
    bank_Paul_run bank_Paul_padded_create t g m
  show ?thesis by (simp add: trim_padded_Erin num_sub_def)
qed

text \<open>
  C10 fails without the proviso: with an account registered under \<open>"Erin"\<close> as well, the
  transfer from \<open>"Paul"\<close> addressed to \<open>"Erin"\<close>, the trimmed form of \<open>" Erin "\<close>, returns
  and credits the account \<open>"Erin"\<close>.
\<close>

theorem trimmed_name_registered_counterexample:
  "run [CreateAccount ''Erin'' (Fin 50), CreateAccount '' Erin '' (Fin 20),
        CreateAccount ''Paul'' (Fin 30)] createBank = Some bank_three \<and>
   map_get (accounts bank_three) '' Erin '' = Some \<lparr>name = ''Erin'', balance = Fin 20\<rparr> \<and>
   trim '' Erin '' = ''Erin'' \<and>
   transfer ''Paul'' ''Erin'' (Fin 10) bank_three =
     Some (Inr (),
       \<lparr>accounts = [(''Erin'', \<lparr>name = ''Erin'', balance = Fin 60\<rparr>),
                    ('' Erin '', \<lparr>name = ''Erin'', balance = Fin 20\<rparr>),
                    (''Paul'', \<lparr>name = ''Paul'', balance = Fin 20\<rparr>)],
        totalBalance = Fin 100\<rparr>)"
  by (simp add: bank_three_def model_defs)

text \<open>
  C4, on the source: after \<open>createAccount("Erin", 50)\<close> the call
  \<open>createAccount(" Erin", 20)\<close>, whose name has the same trimmed form, does not throw
  \<open>NameAlreadyExistsError\<close>: it returns and registers a second account that stores the
  name \<open>"Erin"\<close>.
\<close>

theorem createAccount_untrimmed_duplicate:
  "run [CreateAccount ''Erin'' (Fin 50)] createBank = Some bank_Erin \<and>
   trim '' Erin'' = trim ''Erin'' \<and>
   createAccount '' Erin'' (Fin 20) bank_Erin =
     (Inr '' Erin'',
      \<lparr>accounts = [(''Erin'', \<lparr>name = ''Erin'', balance = Fin 50\<rparr>),
                   ('' Erin'', \<lparr>name = ''Erin'', balance = Fin 20\<rparr>)],
       totalBalance = Fin 70\<rparr>)"
  by (simp add: bank_Erin_def model_defs)

text \<open>
  C5, on the source: for the name of three spaces, whose trimmed form is empty,
  \<open>createAccount\<close> does not throw \<open>InvalidNameError\<close>: it returns and registers an account
  that stores the empty name, and the total balance becomes 50.
\<close>

theorem createAccount_whitespace_name:
  "trim ''   '' = [] \<and>
   createAccount ''   '' (Fin 50) createBank =
     (Inr ''   '',
      \<lparr>accounts = [(''   '', \<lparr>name = [], balance = Fin 50\<rparr>)], totalBalance = Fin 50\<rparr>)"
  by (simp add: model_defs)


text \<open>
  What \<open>createAccount\<close> does check: with a valid balance it throws
  \<open>NameAlreadyExistsError\<close> exactly when the string as given is a key of the registry,
  and it throws \<open>InvalidNameError\<close> for the empty string; a call that throws leaves the
  bank as it was.
\<close>

lemma createAccount_NameAlreadyExists_iff:
  assumes "validateAmount bal = Inr ()"
  shows "fst (createAccount nm bal b) = Inl NameAlreadyExistsError \<longleftrightarrow> map_has (accounts b) nm"
  using assms by (auto simp: createAccount_def AccountImpl_def split: sum.splits)

lemma createAccount_empty_name:
  assumes "validateAmount bal = Inr ()" and "\<not> map_has (accounts b) []"
  shows "createAccount [] bal b = (Inl InvalidNameError, b)"
  using assms by (simp add: createAccount_def AccountImpl_def)

lemma scenario_B:
  "createAccount ''Erin'' (Fin 20) bank_Erin = (Inl NameAlreadyExistsError, bank_Erin)"
  by (simp add: bank_Erin_def model_defs)

lemma throw_leaves_state:
  assumes "perform c b = Some (Inl e, b')"
  shows "b' = b"
proof (cases c)
  case (CreateAccount nm bal)
  with assms show ?thesis
    by (auto simp: createAccount_def AccountImpl_def split: sum.splits if_splits)
next
  case (Deposit this amount)
  with assms show ?thesis
    by (auto simp: deposit_def split: option.splits sum.splits)
next
  case (Withdraw this amount)
  with assms show ?thesis
    by (auto simp: withdraw_def split: option.splits sum.splits if_splits)
next
  case (Transfer this recipient amount)
  with assms show ?thesis
    by (auto simp: transfer_def split: option.splits sum.splits if_splits)
qed

end
